theory Spec2Isabelle
  imports Complex_Main "HOL-Library.Word" "HOL-Library.Log_Nat"
begin

section \<open>Python numbers\<close>

text \<open>
  Image sizes are Python integers (\<open>int\<close>). Padding ratios, scales and the products
  formed from them are Python floats, that is IEEE binary64 values. A finite binary64 value
  is a rational number, and every float operation of the source returns the exact result
  rounded to the nearest value with a 53-bit significand, ties to even. \<open>fl\<close> is that
  rounding; it does not bound the exponent, so it is the rounding of binary64 wherever the
  result is neither subnormal nor above the largest finite float, which is the case for
  every operation of the source on sizes below \<open>2 ^ 31\<close> and padding ratios from 0 to
  below one half (doubling a float, the one operation that can meet a subnormal there, is
  exact in both).
\<close>

definition py_int :: "rat \<Rightarrow> int" where
  \<comment> \<open>\<open>int(x)\<close> on a float: truncation towards zero\<close>
  "py_int x = (if 0 \<le> x then \<lfloor>x\<rfloor> else \<lceil>x\<rceil>)"

definition py_round :: "rat \<Rightarrow> int" where
  \<comment> \<open>\<open>round(x)\<close>: the nearest integer, a tie going to the even one\<close>
  "py_round x = (let f = \<lfloor>x\<rfloor>; d = x - of_int f in
     if d < 1/2 then f else if 1/2 < d then f + 1 else if even f then f else f + 1)"

definition expo :: "rat \<Rightarrow> int" where
  \<comment> \<open>the binary exponent \<open>e\<close> of a non-zero \<open>x\<close>: \<open>2 ^ e \<le> \<bar>x\<bar> < 2 ^ (e + 1)\<close>\<close>
  "expo x = (let (a, b) = quotient_of \<bar>x\<bar>; d = bitlen a - bitlen b in
     if 2 powi d \<le> \<bar>x\<bar> then d else d - 1)"

definition fl :: "rat \<Rightarrow> rat" where
  \<comment> \<open>round to nearest, ties to even, 53 significant bits\<close>
  "fl x = (if x = 0 then 0 else
     let q = 2 powi (expo x - 52) in of_int (py_round (x / q)) * q)"

section \<open>Images\<close>

text \<open>
  A pixel is four bytes, as in the \<open>uint8\<close> array of shape \<open>(height, width, 4)\<close> that
  \<open>remove_near_white_bg\<close> works on: red, green, blue, alpha. An image of mode \<open>RGB\<close> keeps
  four bytes per pixel as well (the imaging library stores it so), the fourth one unused.
\<close>

type_synonym pixel = "8 word \<times> 8 word \<times> 8 word \<times> 8 word"

datatype mode = RGB | RGBA

record image =
  mode :: mode
  width :: int
  height :: int
  pixels :: "pixel list list"

datatype error = ValueError | ZeroDivisionError

definition alpha :: "pixel \<Rightarrow> 8 word" where
  "alpha = (\<lambda>(r, g, b, a). a)"

definition rgb :: "pixel \<Rightarrow> 8 word \<times> 8 word \<times> 8 word" where
  "rgb = (\<lambda>(r, g, b, a). (r, g, b))"

definition pixel_at :: "image \<Rightarrow> int \<Rightarrow> int \<Rightarrow> pixel" where
  \<comment> \<open>the pixel in column \<open>i\<close> of row \<open>j\<close>\<close>
  "pixel_at img i j = pixels img ! nat j ! nat i"

definition well_formed :: "image \<Rightarrow> bool" where
  "well_formed img \<longleftrightarrow>
     0 \<le> width img \<and> 0 \<le> height img \<and> length (pixels img) = nat (height img) \<and>
     list_all (\<lambda>row. length row = nat (width img)) (pixels img)"

definition convert_RGBA :: "image \<Rightarrow> image" where
  \<comment> \<open>\<open>img.convert("RGBA")\<close>: an image without alpha becomes fully opaque\<close>
  "convert_RGBA img = (case mode img of
       RGBA \<Rightarrow> img
     | RGB \<Rightarrow> img\<lparr>mode := RGBA, pixels := map (map (\<lambda>(r, g, b, a). (r, g, b, 255))) (pixels img)\<rparr>)"

definition convert_RGB :: "image \<Rightarrow> image" where
  \<comment> \<open>\<open>img.convert("RGB")\<close>: the alpha byte is dropped (the unused byte is set to 255)\<close>
  "convert_RGB img = (case mode img of
       RGB \<Rightarrow> img
     | RGBA \<Rightarrow> img\<lparr>mode := RGB, pixels := map (map (\<lambda>(r, g, b, a). (r, g, b, 255))) (pixels img)\<rparr>)"

definition new_image :: "mode \<Rightarrow> int \<Rightarrow> int \<Rightarrow> pixel \<Rightarrow> error + image" where
  \<comment> \<open>\<open>Image.new(mode, (w, h), color)\<close>; a negative size is refused\<close>
  "new_image m w h color =
     (if w < 0 \<or> h < 0 then Inl ValueError
      else Inr \<lparr>mode = m, width = w, height = h,
                pixels = replicate (nat h) (replicate (nat w) color)\<rparr>)"

type_synonym resampler = "image \<Rightarrow> int \<Rightarrow> int \<Rightarrow> pixel list list"

definition resize :: "resampler \<Rightarrow> image \<Rightarrow> int \<times> int \<Rightarrow> image" where
  \<comment> \<open>\<open>img.resize((w, h), Image.LANCZOS)\<close>: the result has the requested size and the mode
      of \<open>img\<close>; its pixel values are those of the library's resampling filter, a parameter\<close>
  "resize lanczos img = (\<lambda>(w, h).
     \<lparr>mode = mode img, width = w, height = h, pixels = lanczos img w h\<rparr>)"

definition nearest :: resampler where
  \<comment> \<open>a concrete resampling filter (nearest neighbour), for evaluating the model\<close>
  "nearest img w h =
     map (\<lambda>j. map (\<lambda>i. pixel_at img (int i * width img div w) (int j * height img div h))
                  [0..<nat w]) [0..<nat h]"

definition div255 :: "nat \<Rightarrow> nat" where
  \<comment> \<open>the library's \<open>DIV255(a, tmp)\<close>: \<open>tmp = a + 128; ((tmp >> 8) + tmp) >> 8\<close>\<close>
  "div255 a = (let tmp = a + 128 in (tmp div 256 + tmp) div 256)"

definition blend :: "8 word \<Rightarrow> 8 word \<Rightarrow> 8 word \<Rightarrow> 8 word" where
  \<comment> \<open>the library's \<open>BLEND(mask, in1, in2)\<close>, computed in \<open>unsigned int\<close> (no overflow:
      the sum is at most \<open>255 * 255 + 128\<close>)\<close>
  "blend m in1 in2 = of_nat (div255 (unat in1 * (255 - unat m) + unat in2 * unat m))"

definition blend_pixel :: "8 word \<Rightarrow> pixel \<Rightarrow> pixel \<Rightarrow> pixel" where
  "blend_pixel m = (\<lambda>(r1, g1, b1, a1) (r2, g2, b2, a2).
     (blend m r1 r2, blend m g1 g2, blend m b1 b2, blend m a1 a2))"

definition paste :: "image \<Rightarrow> image \<Rightarrow> int \<times> int \<Rightarrow> image \<Rightarrow> error + image" where
  \<comment> \<open>\<open>canvas.paste(im, (x, y), mask)\<close> for \<open>im\<close> of the mode of \<open>canvas\<close>: inside the box of
      \<open>im\<close> (clipped to the canvas) every byte of the canvas is blended with that of \<open>im\<close>,
      weighted by the alpha of \<open>mask\<close>; a mask needs an alpha band and the size of \<open>im\<close>\<close>
  "paste canvas im = (\<lambda>(x, y) mask.
     if mode mask \<noteq> RGBA \<or> width mask \<noteq> width im \<or> height mask \<noteq> height im
     then Inl ValueError
     else Inr (canvas\<lparr>pixels :=
       map (\<lambda>(j, row).
         map (\<lambda>(i, p).
           if x \<le> int i \<and> int i < x + width im \<and> y \<le> int j \<and> int j < y + height im
           then blend_pixel (alpha (pixel_at mask (int i - x) (int j - y))) p
                  (pixel_at im (int i - x) (int j - y))
           else p) (enumerate 0 row)) (enumerate 0 (pixels canvas))\<rparr>))"

definition in_box :: "int \<times> int \<Rightarrow> image \<Rightarrow> nat \<Rightarrow> nat \<Rightarrow> bool" where
  \<comment> \<open>column \<open>i\<close> of row \<open>j\<close> of the canvas lies in the box of \<open>im\<close> pasted at \<open>(x, y)\<close>\<close>
  "in_box = (\<lambda>(x, y) im i j.
     x \<le> int i \<and> int i < x + width im \<and> y \<le> int j \<and> int j < y + height im)"

section \<open>Background removal\<close>

definition near_white :: "int \<Rightarrow> int \<Rightarrow> pixel \<Rightarrow> bool" where
  \<comment> \<open>lines 31 to 33; \<open>max_rgb - min_rgb\<close> is a subtraction of bytes\<close>
  "near_white threshold tolerance = (\<lambda>(r, g, b, a).
     let max_rgb = max (max r g) b;
         min_rgb = min (min r g) b
     in threshold < uint max_rgb \<and> uint (max_rgb - min_rgb) < tolerance)"

definition remove_near_white_bg :: "image \<Rightarrow> int \<Rightarrow> int \<Rightarrow> image" where
  "remove_near_white_bg img threshold tolerance =
     (let arr = convert_RGBA img
      in arr\<lparr>pixels := map (map (\<lambda>(r, g, b, a).
              (r, g, b, if near_white threshold tolerance (r, g, b, a) then 0 else a)))
            (pixels arr)\<rparr>)"

definition remove_pixel :: "int \<Rightarrow> int \<Rightarrow> pixel \<Rightarrow> pixel" where
  \<comment> \<open>what lines 33 and 34 do to one pixel\<close>
  "remove_pixel threshold tolerance = (\<lambda>(r, g, b, a).
     (r, g, b, if near_white threshold tolerance (r, g, b, a) then 0 else a))"

text \<open>
  The rule in the words of the specification, over the integers: the largest and the smallest
  of the three colour channels, and the test on brightness and spread.
\<close>

definition channel_max :: "pixel \<Rightarrow> int" where
  "channel_max = (\<lambda>(r, g, b, a). max (max (uint r) (uint g)) (uint b))"

definition channel_min :: "pixel \<Rightarrow> int" where
  "channel_min = (\<lambda>(r, g, b, a). min (min (uint r) (uint g)) (uint b))"

definition spec_near_white :: "int \<Rightarrow> int \<Rightarrow> pixel \<Rightarrow> bool" where
  "spec_near_white threshold tolerance p \<longleftrightarrow>
     threshold < channel_max p \<and> channel_max p - channel_min p < tolerance"

section \<open>Placement on a canvas\<close>

text \<open>
  The local variables of \<open>fit_on_square\<close> (lines 39 to 45) and of \<open>center_on_canvas\<close>
  (lines 51 to 56): the size of the resampled content and its top-left corner on the canvas.
  The division by the width or height of the source raises for an empty source.
  \<open>center_on_canvas\<close> reads the size of the content back from the resized image, which
  has the size it asked for.
\<close>

definition fit_on_square_geometry ::
    "int \<Rightarrow> int \<Rightarrow> int \<Rightarrow> rat \<Rightarrow> error + (int \<times> int \<times> int \<times> int)" where
  "fit_on_square_geometry w h sz pad_ratio =
     (let max_side = py_int (fl (of_int sz * fl (1 - fl (2 * pad_ratio))))
      in if w = 0 \<or> h = 0 then Inl ZeroDivisionError
         else
           let scale = min (fl (of_int max_side / of_int w)) (fl (of_int max_side / of_int h));
               new_w = max 1 (py_int (fl (of_int w * scale)));
               new_h = max 1 (py_int (fl (of_int h * scale)));
               x = (sz - new_w) div 2;
               y = (sz - new_h) div 2
           in Inr (new_w, new_h, x, y))"

definition fit_on_square :: "resampler \<Rightarrow> image \<Rightarrow> int \<Rightarrow> rat \<Rightarrow> error + image" where
  "fit_on_square lanczos img sz pad_ratio =
     (case new_image RGBA sz sz (0, 0, 0, 0) of
        Inl e \<Rightarrow> Inl e
      | Inr canvas \<Rightarrow>
         (case fit_on_square_geometry (width img) (height img) sz pad_ratio of
            Inl e \<Rightarrow> Inl e
          | Inr (new_w, new_h, x, y) \<Rightarrow>
             let img_resized = resize lanczos img (new_w, new_h)
             in paste canvas img_resized (x, y) img_resized))"

definition center_on_canvas_geometry ::
    "int \<Rightarrow> int \<Rightarrow> int \<Rightarrow> int \<Rightarrow> rat \<Rightarrow> error + (int \<times> int \<times> int \<times> int)" where
  "center_on_canvas_geometry img_width img_height w h pad_ratio =
     (let max_w = py_int (fl (of_int w * fl (1 - fl (2 * pad_ratio))));
          max_h = py_int (fl (of_int h * fl (1 - fl (2 * pad_ratio))))
      in if img_width = 0 \<or> img_height = 0 then Inl ZeroDivisionError
         else
           let scale = min (fl (of_int max_w / of_int img_width))
                           (fl (of_int max_h / of_int img_height));
               new_width = max 1 (py_int (fl (of_int img_width * scale)));
               new_height = max 1 (py_int (fl (of_int img_height * scale)));
               x = (w - new_width) div 2;
               y = (h - new_height) div 2
           in Inr (new_width, new_height, x, y))"

definition center_on_canvas :: "resampler \<Rightarrow> image \<Rightarrow> int \<Rightarrow> int \<Rightarrow> rat \<Rightarrow> error + image" where
  "center_on_canvas lanczos img w h pad_ratio =
     (case new_image RGBA w h (255, 255, 255, 0) of
        Inl e \<Rightarrow> Inl e
      | Inr canvas \<Rightarrow>
         (case center_on_canvas_geometry (width img) (height img) w h pad_ratio of
            Inl e \<Rightarrow> Inl e
          | Inr (new_width, new_height, x, y) \<Rightarrow>
             let new = resize lanczos img (new_width, new_height)
             in paste canvas new (x, y) new))"

definition padded_side :: "int \<Rightarrow> rat \<Rightarrow> int" where
  \<comment> \<open>the expression \<open>int(c * (1 - 2 * pad_ratio))\<close> of lines 40, 51, 52 and 153\<close>
  "padded_side c pad_ratio = py_int (fl (of_int c * fl (1 - fl (2 * pad_ratio))))"

definition fit_scale :: "int \<Rightarrow> int \<Rightarrow> int \<Rightarrow> int \<Rightarrow> rat" where
  \<comment> \<open>the expression \<open>min(max_w / src_w, max_h / src_h)\<close> of lines 41, 53 and 154\<close>
  "fit_scale src_w src_h max_w max_h =
     min (fl (of_int max_w / of_int src_w)) (fl (of_int max_h / of_int src_h))"

definition scaled_side :: "int \<Rightarrow> rat \<Rightarrow> int" where
  \<comment> \<open>the expression \<open>max(1, int(src * scale))\<close> of lines 42, 54 and 155\<close>
  "scaled_side src scale = max 1 (py_int (fl (of_int src * scale)))"

text \<open>
  Step 3 of the placement rule in the words of the specification, with exact arithmetic
  and rounding to the nearest integer.
\<close>

definition spec_new_size :: "int \<Rightarrow> int \<Rightarrow> int \<Rightarrow> int \<Rightarrow> int \<times> int" where
  "spec_new_size src_w src_h max_w max_h =
     (let scale = min (of_int max_w / of_int src_w) (of_int max_h / of_int src_h) :: rat
      in (max 1 (py_round (of_int src_w * scale)), max 1 (py_round (of_int src_h * scale))))"

definition pixel_of :: "error + image \<Rightarrow> int \<Rightarrow> int \<Rightarrow> error + pixel" where
  \<comment> \<open>the pixel in column \<open>i\<close> of row \<open>j\<close> of a result\<close>
  "pixel_of r i j = (case r of Inl e \<Rightarrow> Inl e | Inr img \<Rightarrow> Inr (pixel_at img i j))"

section \<open>Flag mockups\<close>

text \<open>
  \<open>center_canvas\<close> is the helper nested in \<open>main\<close> (lines 150 to 158), written there a
  second time with the body of \<open>center_on_canvas\<close>; \<open>flag_mockup\<close> (lines 159 to 164)
  takes the transparent logo it captures as an argument.
\<close>

definition center_canvas :: "resampler \<Rightarrow> image \<Rightarrow> int \<Rightarrow> int \<Rightarrow> rat \<Rightarrow> error + image" where
  "center_canvas lanczos img w h pad_ratio =
     (case new_image RGBA w h (255, 255, 255, 0) of
        Inl e \<Rightarrow> Inl e
      | Inr canvas \<Rightarrow>
         let max_w = py_int (fl (of_int w * fl (1 - fl (2 * pad_ratio))));
             max_h = py_int (fl (of_int h * fl (1 - fl (2 * pad_ratio))))
         in if width img = 0 \<or> height img = 0 then Inl ZeroDivisionError
            else
              let scale = min (fl (of_int max_w / of_int (width img)))
                              (fl (of_int max_h / of_int (height img)));
                  new = resize lanczos img
                          (max 1 (py_int (fl (of_int (width img) * scale))),
                           max 1 (py_int (fl (of_int (height img) * scale))));
                  x = (w - width new) div 2;
                  y = (h - height new) div 2
              in paste canvas new (x, y) new)"

definition flag_height :: "int \<Rightarrow> int \<Rightarrow> int \<Rightarrow> error + int" where
  \<comment> \<open>line 160: \<open>int(width * rh/rw)\<close>, the product first, then the float quotient\<close>
  "flag_height rw rh w =
     (if rw = 0 then Inl ZeroDivisionError
      else Inr (py_int (fl (of_int (w * rh) / of_int rw))))"

definition flag_mockup :: "resampler \<Rightarrow> image \<Rightarrow> int \<Rightarrow> int \<Rightarrow> int \<Rightarrow> error + image" where
  "flag_mockup lanczos im_trans rw rh w =
     (case flag_height rw rh w of
        Inl e \<Rightarrow> Inl e
      | Inr h \<Rightarrow>
         (case new_image RGB w h (255, 255, 255, 255) of
            Inl e \<Rightarrow> Inl e
          | Inr bg \<Rightarrow>
             (case center_canvas lanczos im_trans w h (1/4) of
                Inl e \<Rightarrow> Inl e
              | Inr placed \<Rightarrow> paste bg (convert_RGB placed) (0, 0) placed)))"

section \<open>The iOS group of the batch\<close>

text \<open>
  Lines 114 to 123 of \<open>main\<close>: every call of \<open>fit_on_square\<close> on the transparent logo
  whose result is saved under the iOS folder, in the order of the calls, as the path of the
  file with the size and the padding ratio passed.
\<close>

fun digits :: "nat \<Rightarrow> string" where
  \<comment> \<open>the decimal digits of a number, as an f-string prints it\<close>
  "digits n = (if n < 10 then [''0123456789'' ! n]
               else digits (n div 10) @ [''0123456789'' ! (n mod 10)])"

declare digits.simps [simp del]

definition IOS_DIR :: string where
  "IOS_DIR = ''logo_asset_pack/ios''"

definition path_join :: "string \<Rightarrow> string \<Rightarrow> string" where
  \<comment> \<open>\<open>os.path.join\<close> of a folder and a file name\<close>
  "path_join d f = d @ ''/'' @ f"

definition ios_sizes :: "nat list" where
  "ios_sizes = [20, 29, 40, 60, 76, 83]"

definition scales :: "nat list" where
  "scales = [1, 2, 3]"

definition ios_icon_name :: "nat \<Rightarrow> nat \<Rightarrow> string" where
  \<comment> \<open>the f-string of line 121, with \<open>size = base * scale\<close>\<close>
  "ios_icon_name base scale =
     ''Icon-'' @ digits base @ ''pt@'' @ digits scale @ ''x-'' @ digits (base * scale) @ ''.png''"

definition ios_group :: "(string \<times> nat \<times> rat) list" where
  "ios_group =
     concat (map (\<lambda>base. concat (map (\<lambda>scale.
         if base = 83 \<and> scale = 1 then []
         else [(path_join IOS_DIR (ios_icon_name base scale), base * scale, fl (3/25))])
       scales)) ios_sizes)
     @ [(path_join IOS_DIR ''Icon-83.5pt@2x-167.png'', 167, fl (3/25))]
     @ [(path_join IOS_DIR ''AppStore-1024.png'', 1024, fl (3/25))]"

section \<open>Sample inputs\<close>

definition logo2 :: image where
  \<comment> \<open>two pixels without alpha: a near-white one and a bright saturated one\<close>
  "logo2 = \<lparr>mode = RGB, width = 2, height = 1,
            pixels = [[(255, 250, 248, 255), (255, 200, 10, 255)]]\<rparr>"

definition dot :: image where
  \<comment> \<open>one opaque pixel\<close>
  "dot = \<lparr>mode = RGBA, width = 1, height = 1, pixels = [[(10, 20, 30, 255)]]\<rparr>"

definition faded :: image where
  \<comment> \<open>a transparent pixel beside a half-transparent one\<close>
  "faded = \<lparr>mode = RGBA, width = 2, height = 1,
            pixels = [[(10, 20, 30, 0), (200, 100, 50, 128)]]\<rparr>"

section \<open>Rounding to a float\<close>

lemma py_round_of_int: "py_round (of_int n) = n"
  by (simp add: py_round_def)

lemma py_round_err: "\<bar>of_int (py_round x) - x\<bar> \<le> 1/2"
proof -
  have "of_int \<lfloor>x\<rfloor> \<le> x" "x < of_int \<lfloor>x\<rfloor> + 1" by linarith+
  then show ?thesis
    unfolding py_round_def Let_def by (simp add: abs_if) linarith
qed

lemma bitlen_bounds_rat:
  assumes "0 < a"
  shows "(2::rat) powi (bitlen a - 1) \<le> of_int a" and "of_int a < (2::rat) powi (bitlen a)"
proof -
  have l: "0 < bitlen a" using assms bitlen_nonneg[of a] bitlen_eq_zero_iff[of a] by linarith
  from bitlen_bounds[OF assms] have 1: "2 ^ nat (bitlen a - 1) \<le> a" and 2: "a < 2 ^ nat (bitlen a)"
    by simp_all
  have "(of_int (2 ^ nat (bitlen a - 1)) :: rat) \<le> of_int a" using 1 by (simp only: of_int_le_iff)
  then show "(2::rat) powi (bitlen a - 1) \<le> of_int a" using l by (simp add: power_int_def)
  have "(of_int a :: rat) < of_int (2 ^ nat (bitlen a))" using 2 by (simp only: of_int_less_iff)
  then show "of_int a < (2::rat) powi (bitlen a)" using l by (simp add: power_int_def)
qed

lemma expo_bounds:
  assumes "x \<noteq> 0"
  shows "2 powi (expo x) \<le> \<bar>x\<bar>" and "\<bar>x\<bar> < 2 powi (expo x + 1)"
proof -
  obtain a b where ab: "quotient_of \<bar>x\<bar> = (a, b)" by (cases "quotient_of \<bar>x\<bar>")
  have b: "0 < b" using ab by (rule quotient_of_denom_pos)
  have x: "\<bar>x\<bar> = of_int a / of_int b" using ab by (rule quotient_of_div)
  have a: "0 < a"
  proof -
    have "0 < \<bar>x\<bar>" using assms by simp
    then have "0 < (of_int a :: rat) / of_int b" using x by simp
    then show ?thesis using b by (simp add: zero_less_divide_iff)
  qed
  define d where "d = bitlen a - bitlen b"
  have e: "expo x = (if 2 powi d \<le> \<bar>x\<bar> then d else d - 1)"
    by (simp add: expo_def ab d_def Let_def)
  note a1 = bitlen_bounds_rat(1)[OF a] and a2 = bitlen_bounds_rat(2)[OF a]
  note b1 = bitlen_bounds_rat(1)[OF b] and b2 = bitlen_bounds_rat(2)[OF b]
  have bpos: "(0::rat) < of_int b" using b by simp
  have p1: "(0::rat) < 2 powi (bitlen b - 1)" by simp
  have up: "\<bar>x\<bar> < 2 powi (d + 1)"
  proof -
    have "of_int a / of_int b < (2::rat) powi (bitlen a) / of_int b"
      using a2 bpos by (simp add: divide_strict_right_mono)
    also have "\<dots> \<le> (2::rat) powi (bitlen a) / 2 powi (bitlen b - 1)"
      using b1 p1 by (simp add: frac_le)
    also have "\<dots> = 2 powi (d + 1)"
      by (simp add: d_def power_int_diff[symmetric] algebra_simps)
    finally show ?thesis using x by simp
  qed
  have lo: "2 powi (d - 1) \<le> \<bar>x\<bar>"
  proof -
    have "(2::rat) powi (d - 1) = 2 powi (bitlen a - 1) / 2 powi (bitlen b)"
      by (simp add: d_def power_int_diff[symmetric] algebra_simps)
    also have "\<dots> \<le> of_int a / 2 powi (bitlen b)"
      using a1 by (simp add: divide_right_mono)
    also have "\<dots> \<le> of_int a / of_int b"
      using b2 bpos a by (simp add: frac_le)
    finally show ?thesis using x by simp
  qed
  show "2 powi (expo x) \<le> \<bar>x\<bar>" using e lo by auto
  show "\<bar>x\<bar> < 2 powi (expo x + 1)" using e up by (auto simp: not_le)
qed


lemma fl_zero: "fl 0 = 0"
  by (simp add: fl_def)

lemma fl_err: "\<bar>fl x - x\<bar> \<le> \<bar>x\<bar> / 2 ^ 53"
proof (cases "x = 0")
  case True
  then show ?thesis by (simp add: fl_def)
next
  case False
  define q :: rat where "q = 2 powi (expo x - 52)"
  have q: "0 < q" by (simp add: q_def)
  have f: "fl x = of_int (py_round (x / q)) * q"
    using False by (simp add: fl_def q_def Let_def)
  have "fl x - x = (of_int (py_round (x / q)) - x / q) * q"
    using q by (simp add: f algebra_simps)
  then have "\<bar>fl x - x\<bar> = \<bar>of_int (py_round (x / q)) - x / q\<bar> * q"
    using q by (simp add: abs_mult)
  also have "\<dots> \<le> (1/2) * q"
    using py_round_err[of "x / q"] q by (simp add: mult_right_mono)
  also have "\<dots> = 2 powi (expo x) / 2 ^ 53"
  proof -
    have "(2::rat) powi (expo x - 52) = 2 powi (expo x) / 2 powi 52"
      by (simp add: power_int_diff)
    then show ?thesis by (simp add: q_def)
  qed
  also have "\<dots> \<le> \<bar>x\<bar> / 2 ^ 53"
    using expo_bounds(1)[OF False] by (simp add: divide_right_mono)
  finally show ?thesis .
qed

lemma fl_of_int:
  assumes "\<bar>n\<bar> < 2 ^ 53"
  shows "fl (of_int n) = of_int n"
proof (cases "n = 0")
  case True
  then show ?thesis by (simp add: fl_def)
next
  case False
  define x :: rat where "x = of_int n"
  have x0: "x \<noteq> 0" using False by (simp add: x_def)
  have "(2::rat) powi (expo x) \<le> \<bar>x\<bar>" using expo_bounds(1)[OF x0] .
  also have "\<bar>x\<bar> < 2 powi 53"
  proof -
    have "(of_int \<bar>n\<bar> :: rat) < of_int (2 ^ 53)" using assms by (simp only: of_int_less_iff)
    then show ?thesis by (simp add: x_def)
  qed
  finally have "(2::rat) powi (expo x) < 2 powi 53" .
  then have "expo x < 53"
    by (rule power_int_le_imp_less_exp[rotated]) simp_all
  then have e: "0 \<le> 52 - expo x" by simp
  define k where "k = nat (52 - expo x)"
  have q: "(2::rat) powi (expo x - 52) = 1 / 2 ^ k"
  proof -
    have "expo x - 52 = - int k" using e by (simp add: k_def)
    then have "(2::rat) powi (expo x - 52) = 2 powi (- int k)" by simp
    also have "\<dots> = 1 / 2 ^ k" by (simp add: power_int_minus divide_inverse)
    finally show ?thesis .
  qed
  have "x / (1 / 2 ^ k) = of_int (n * 2 ^ k)" by (simp add: x_def)
  then have "py_round (x / (1 / 2 ^ k)) = n * 2 ^ k" by (simp only: py_round_of_int)
  then have "fl x = of_int (n * 2 ^ k) * (1 / 2 ^ k)"
    using x0 by (simp add: fl_def q Let_def)
  then show ?thesis by (simp add: x_def)
qed

lemma fl_bounds_nonneg:
  assumes "0 \<le> x"
  shows "0 \<le> fl x" and "fl x \<le> x + x / 2 ^ 53" and "x - x / 2 ^ 53 \<le> fl x"
proof -
  have e: "\<bar>fl x - x\<bar> \<le> x / 2 ^ 53" using fl_err[of x] assms by simp
  show "fl x \<le> x + x / 2 ^ 53" using e by linarith
  show "x - x / 2 ^ 53 \<le> fl x" using e by linarith
  have "x / 2 ^ 53 \<le> x" using assms by (simp add: field_simps)
  then show "0 \<le> fl x" using e by linarith
qed

lemma py_int_of_int: "py_int (of_int n) = n"
  by (simp add: py_int_def)

lemma py_int_le:
  assumes "x < of_int n + 1" and "0 \<le> n"
  shows "py_int x \<le> n"
proof (cases "0 \<le> x")
  case True
  then show ?thesis using assms(1) by (simp add: py_int_def floor_le_iff)
next
  case False
  then have "\<lceil>x\<rceil> \<le> 0" by (simp add: ceiling_le_iff)
  then have "\<lceil>x\<rceil> \<le> n" using assms(2) by linarith
  then show ?thesis using False by (simp add: py_int_def)
qed

lemma py_int_ge0:
  assumes "- 1 < x"
  shows "0 \<le> py_int x"
proof (cases "0 \<le> x")
  case True
  then show ?thesis by (simp add: py_int_def)
next
  case False
  then show ?thesis using assms by (simp add: py_int_def le_ceiling_iff)
qed

lemma py_int_le_self: "0 \<le> x \<Longrightarrow> of_int (py_int x) \<le> x"
  by (simp add: py_int_def)

text \<open>The padding factor \<open>1 - 2 * pad_ratio\<close> in floats.\<close>

lemma pad_factor_err:
  assumes "0 \<le> p" and "p < 1/2"
  shows "\<bar>fl (1 - fl (2 * p)) - (1 - 2 * p)\<bar> \<le> 3 / 2 ^ 53"
proof -
  define u :: rat where "u = 1 / 2 ^ 53"
  have u: "0 < u" "u \<le> 1" by (simp_all add: u_def)
  define y where "y = fl (2 * p)"
  have "\<bar>y - 2 * p\<bar> \<le> \<bar>2 * p\<bar> * u" unfolding y_def u_def using fl_err[of "2 * p"] by simp
  moreover have "\<bar>2 * p\<bar> * u \<le> 1 * u"
    using assms u(1) by (intro mult_right_mono) simp_all
  ultimately have y: "\<bar>y - 2 * p\<bar> \<le> u" by linarith
  have b: "\<bar>1 - y\<bar> \<le> 2" using y assms u by linarith
  have "\<bar>fl (1 - y) - (1 - y)\<bar> \<le> \<bar>1 - y\<bar> * u" unfolding u_def using fl_err[of "1 - y"] by simp
  moreover have "\<bar>1 - y\<bar> * u \<le> 2 * u"
    using b u(1) by (intro mult_right_mono) simp_all
  ultimately have "\<bar>fl (1 - y) - (1 - y)\<bar> \<le> 2 * u" by linarith
  then have "\<bar>fl (1 - y) - (1 - 2 * p)\<bar> \<le> 3 * u" using y by linarith
  then show ?thesis unfolding y_def u_def by simp
qed


text \<open>The padded box \<open>int(c * (1 - 2 * pad_ratio))\<close> of a canvas side \<open>c\<close>.\<close>

lemma padded_side_value:
  assumes "0 \<le> c" and "c < 2 ^ 31" and "0 \<le> p" and "p < 1/2"
  shows "\<bar>fl (of_int c * fl (1 - fl (2 * p))) - of_int c * (1 - 2 * p)\<bar> \<le> 5 / 2 ^ 22"
proof -
  define u :: rat where "u = 1 / 2 ^ 53"
  have u: "0 < u" "u \<le> 1/4" by (simp_all add: u_def)
  define F where "F = fl (1 - fl (2 * p))"
  define C :: rat where "C = of_int c"
  define t where "t = 1 - 2 * p"
  have C: "0 \<le> C" "C \<le> 2 ^ 31"
  proof -
    show "0 \<le> C" using assms(1) by (simp add: C_def)
    have "(of_int c :: rat) \<le> of_int (2 ^ 31)" using assms(2) by (simp only: of_int_le_iff)
    then show "C \<le> 2 ^ 31" by (simp add: C_def)
  qed
  have t: "0 < t" "t \<le> 1" using assms by (simp_all add: t_def)
  have F: "\<bar>F - t\<bar> \<le> 3 * u"
    using pad_factor_err[OF assms(3,4)] by (simp add: F_def t_def u_def)
  have F2: "\<bar>F\<bar> \<le> 2" using F t u by linarith
  have "\<bar>C * F - C * t\<bar> = C * \<bar>F - t\<bar>"
    using C(1) by (simp add: abs_mult flip: right_diff_distrib)
  also have "\<dots> \<le> 2 ^ 31 * (3 * u)"
    using C F by (intro mult_mono) simp_all
  finally have 1: "\<bar>C * F - C * t\<bar> \<le> 2 ^ 31 * (3 * u)" .
  have "\<bar>C * F\<bar> = C * \<bar>F\<bar>" using C(1) by (simp add: abs_mult)
  also have "\<dots> \<le> 2 ^ 31 * 2" using C F2 by (intro mult_mono) simp_all
  finally have 2: "\<bar>C * F\<bar> \<le> 2 ^ 32" by simp
  have "\<bar>fl (C * F) - C * F\<bar> \<le> \<bar>C * F\<bar> * u"
    unfolding u_def using fl_err[of "C * F"] by simp
  moreover have "\<bar>C * F\<bar> * u \<le> 2 ^ 32 * u"
    using 2 u(1) by (intro mult_right_mono) simp_all
  ultimately have 3: "\<bar>fl (C * F) - C * F\<bar> \<le> 2 ^ 32 * u" by linarith
  have "\<bar>fl (C * F) - C * t\<bar> \<le> 2 ^ 32 * u + 2 ^ 31 * (3 * u)" using 1 3 by linarith
  also have "\<dots> = 5 / 2 ^ 22" by (simp add: u_def)
  finally show ?thesis by (simp add: C_def F_def t_def)
qed

lemma padded_side_bounds:
  assumes "0 \<le> c" and "c < 2 ^ 31" and "0 \<le> p" and "p < 1/2"
  defines "m \<equiv> py_int (fl (of_int c * fl (1 - fl (2 * p))))"
  shows "0 \<le> m" and "of_int m \<le> of_int c * (1 - 2 * p) + 5 / 2 ^ 22" and "m \<le> 2 ^ 31"
proof -
  define v where "v = fl (of_int c * fl (1 - fl (2 * p)))"
  define X :: rat where "X = of_int c * (1 - 2 * p)"
  define d :: rat where "d = 5 / 2 ^ 22"
  have d: "0 \<le> d" "d < 1" by (simp_all add: d_def)
  have v: "\<bar>v - X\<bar> \<le> d"
    unfolding v_def X_def d_def by (rule padded_side_value[OF assms(1-4)])
  have C: "(of_int c :: rat) \<le> 2 ^ 31"
  proof -
    have "(of_int c :: rat) \<le> of_int (2 ^ 31)" using assms(2) by (simp only: of_int_le_iff)
    then show ?thesis by simp
  qed
  have X0: "0 \<le> X" using assms by (simp add: X_def)
  have "X \<le> of_int c * 1" unfolding X_def using assms by (intro mult_left_mono) simp_all
  then have X1: "X \<le> 2 ^ 31" using C by simp
  have m: "m = py_int v" by (simp add: m_def v_def)
  have "- 1 < v" using v X0 d by linarith
  then show "0 \<le> m" unfolding m by (rule py_int_ge0)
  have md: "of_int m \<le> X + d"
  proof (cases "0 \<le> v")
    case True
    then have "of_int m \<le> v" unfolding m by (rule py_int_le_self)
    then show ?thesis using v by linarith
  next
    case False
    then have "\<lceil>v\<rceil> \<le> 0" by (simp add: ceiling_le_iff)
    then have "m \<le> 0" using False by (simp add: m py_int_def)
    then have "(of_int m :: rat) \<le> 0" by simp
    then show ?thesis using X0 d by linarith
  qed
  then show "of_int m \<le> of_int c * (1 - 2 * p) + 5 / 2 ^ 22" by (simp add: X_def d_def)
  have "(of_int m :: rat) < 2 ^ 31 + 1" using md X1 d by linarith
  then have "(of_int m :: rat) < of_int (2 ^ 31 + 1)" by simp
  then have "m < 2 ^ 31 + 1" by (simp only: of_int_less_iff)
  then show "m \<le> 2 ^ 31" by simp
qed


text \<open>Scaling a source side by a scale that fits it into a box of \<open>m\<close> pixels.\<close>

lemma scaled_side_le:
  assumes "0 < w" and "0 \<le> m" and "m \<le> 2 ^ 31"
      and "0 \<le> s" and "s \<le> fl (of_int m / of_int w)"
  shows "py_int (fl (of_int w * s)) \<le> m"
proof -
  define u :: rat where "u = 1 / 2 ^ 53"
  define B :: rat where "B = 2 ^ 31"
  have u: "0 < u" "4 * (B * u) < 1" "1 \<le> B" by (simp_all add: u_def B_def)
  define W :: rat where "W = of_int w"
  define M :: rat where "M = of_int m"
  have W: "0 < W" using assms(1) by (simp add: W_def)
  have M: "0 \<le> M" "M \<le> B"
  proof -
    show "0 \<le> M" using assms(2) by (simp add: M_def)
    have "(of_int m :: rat) \<le> of_int (2 ^ 31)" using assms(3) by (simp only: of_int_le_iff)
    then show "M \<le> B" by (simp add: M_def B_def)
  qed
  define a where "a = M / W"
  have a: "0 \<le> a" using M(1) W by (simp add: a_def)
  have Wa: "W * a = M" using W by (simp add: a_def)
  have "fl a \<le> a + a * u" using fl_bounds_nonneg(2)[OF a] by (simp add: u_def)
  then have "W * fl a \<le> W * (a + a * u)" using W by (intro mult_left_mono) simp_all
  also have "\<dots> = M + M * u" using Wa by (simp add: algebra_simps)
  finally have 1: "W * fl a \<le> M + M * u" .
  define z where "z = W * s"
  have z0: "0 \<le> z" using W assms(4) by (simp add: z_def)
  have "z \<le> W * fl a" unfolding z_def using assms(5) W by (intro mult_left_mono) (simp_all add: a_def M_def W_def)
  then have z1: "z \<le> M + M * u" using 1 by linarith
  have Mu: "M * u \<le> B * u" using M(2) u(1) by (intro mult_right_mono) simp_all
  have z2: "z \<le> 2 * B" using z1 Mu M(2) u(2,3) by linarith
  have "z * u \<le> (2 * B) * u" using z2 u(1) by (intro mult_right_mono) simp_all
  then have zu: "z * u \<le> 2 * (B * u)" by simp
  have "fl z \<le> z + z * u" using fl_bounds_nonneg(2)[OF z0] by (simp add: u_def)
  then have "fl z < M + 1" using z1 Mu zu u(2) by linarith
  then have "fl (of_int w * s) < of_int m + 1" by (simp add: z_def W_def M_def)
  then show ?thesis using assms(2) by (rule py_int_le)
qed

section \<open>The background remover\<close>

lemma uint_max: "uint (max x y) = max (uint x) (uint y)" for x y :: "8 word"
  by (simp add: max_def word_le_def)

lemma uint_min: "uint (min x y) = min (uint x) (uint y)" for x y :: "8 word"
  by (simp add: min_def word_le_def)

lemma near_white_spec: "near_white threshold tolerance p = spec_near_white threshold tolerance p"
proof -
  obtain r g b a where p: "p = (r, g, b, a)" by (cases p)
  define hi where "hi = max (max r g) b"
  define lo where "lo = min (min r g) b"
  have le: "lo \<le> hi"
    unfolding hi_def lo_def by (meson min.cobounded1 max.cobounded1 order_trans)
  have sub: "uint (hi - lo) = uint hi - uint lo"
    using le by (rule uint_minus_simple_alt[THEN iffD1])
  have hi: "uint hi = max (max (uint r) (uint g)) (uint b)"
    by (simp only: hi_def uint_max)
  have lo: "uint lo = min (min (uint r) (uint g)) (uint b)"
    by (simp only: lo_def uint_min)
  have "near_white threshold tolerance p \<longleftrightarrow> threshold < uint hi \<and> uint (hi - lo) < tolerance"
    by (simp only: p near_white_def Let_def hi_def lo_def split_conv)
  also have "\<dots> \<longleftrightarrow> spec_near_white threshold tolerance p"
    by (simp only: p spec_near_white_def channel_max_def channel_min_def split_conv sub hi lo)
  finally show ?thesis .
qed


lemma convert_RGBA_geometry:
  "width (convert_RGBA img) = width img" "height (convert_RGBA img) = height img"
  "mode (convert_RGBA img) = RGBA"
  "length (pixels (convert_RGBA img)) = length (pixels img)"
  "map length (pixels (convert_RGBA img)) = map length (pixels img)"
  by (simp_all add: convert_RGBA_def comp_def split: mode.split)

lemma convert_RGBA_rgb:
  "map (map rgb) (pixels (convert_RGBA img)) = map (map rgb) (pixels img)"
  by (simp add: convert_RGBA_def comp_def rgb_def case_prod_unfold split: mode.split)

lemma convert_RGBA_idem: "mode img = RGBA \<Longrightarrow> convert_RGBA img = img"
  by (simp add: convert_RGBA_def)

lemma remove_near_white_bg_pixels:
  "pixels (remove_near_white_bg img threshold tolerance) =
     map (map (remove_pixel threshold tolerance)) (pixels (convert_RGBA img))"
  by (simp add: remove_near_white_bg_def remove_pixel_def Let_def)

lemma remove_near_white_bg_nth:
  assumes "j < length (pixels img)" and "i < length (pixels img ! j)"
  shows "pixels (remove_near_white_bg img threshold tolerance) ! j ! i =
           remove_pixel threshold tolerance (pixels (convert_RGBA img) ! j ! i)"
proof -
  have j: "j < length (pixels (convert_RGBA img))"
    using assms(1) by (simp add: convert_RGBA_geometry)
  have "length (pixels (convert_RGBA img) ! j) = map length (pixels (convert_RGBA img)) ! j"
    using j by simp
  also have "\<dots> = length (pixels img ! j)"
    using assms(1) by (simp add: convert_RGBA_geometry)
  finally have i: "i < length (pixels (convert_RGBA img) ! j)"
    using assms(2) by simp
  show ?thesis using i j by (simp add: remove_near_white_bg_pixels)
qed

lemma remove_pixel_alpha:
  "alpha (remove_pixel threshold tolerance p) =
     (if threshold < channel_max p \<and> channel_max p - channel_min p < tolerance then 0 else alpha p)"
proof -
  obtain r g b a where p: "p = (r, g, b, a)" by (cases p)
  have "alpha (remove_pixel threshold tolerance p) =
          (if near_white threshold tolerance p then 0 else alpha p)"
    by (simp add: p remove_pixel_def alpha_def)
  then show ?thesis by (simp add: near_white_spec spec_near_white_def)
qed

lemma remove_pixel_rgb: "rgb (remove_pixel threshold tolerance p) = rgb p"
  by (cases p) (simp add: remove_pixel_def rgb_def)

lemma remove_pixel_idem:
  "remove_pixel threshold tolerance (remove_pixel threshold tolerance p) =
     remove_pixel threshold tolerance p"
proof -
  obtain r g b a where p: "p = (r, g, b, a)" by (cases p)
  have nw: "near_white threshold tolerance (r, g, b, a') = near_white threshold tolerance (r, g, b, a)" for a'
    by (simp add: near_white_def)
  show ?thesis
    by (simp add: p remove_pixel_def nw[of 0])
qed

text \<open>
  C3. For every pixel of the input, \<open>remove_near_white_bg\<close> sets the alpha to 0 if the
  largest colour channel exceeds the threshold and the spread between the largest and the
  smallest channel is below the tolerance, and leaves the alpha as it is otherwise (for an
  input without alpha, as it is after the conversion to \<open>RGBA\<close>, that is 255). In
  particular a pixel whose spread is at least the tolerance keeps its alpha, however bright.
  The byte subtraction of the source cannot wrap, so the rule holds over the integers.
\<close>
theorem remove_near_white_bg_alpha_rule:
  assumes "j < length (pixels img)" and "i < length (pixels img ! j)"
  shows "let p = pixels (convert_RGBA img) ! j ! i;
             q = pixels (remove_near_white_bg img threshold tolerance) ! j ! i
         in alpha q = (if threshold < channel_max p \<and> channel_max p - channel_min p < tolerance
                       then 0 else alpha p) \<and>
            (tolerance \<le> channel_max p - channel_min p \<longrightarrow> alpha q = alpha p)"
  unfolding Let_def remove_near_white_bg_nth[OF assms] remove_pixel_alpha by simp

text \<open>
  The rule at the saturated pixel of \<open>logo2\<close>, with the default threshold and tolerance.
\<close>
theorem remove_near_white_bg_alpha_rule_witness:
  "(0::nat) < length (pixels logo2) \<and> (1::nat) < length (pixels logo2 ! 0) \<and>
   pixels (convert_RGBA logo2) ! 0 ! 1 = (255, 200, 10, 255) \<and>
   (15::int) \<le> channel_max (255, 200, 10, 255) - channel_min (255, 200, 10, 255) \<and>
   alpha (pixels (remove_near_white_bg logo2 245 15) ! 0 ! 1) = 255"
  using remove_near_white_bg_alpha_rule [of 0 logo2 1 245 15]
  by (simp add: logo2_def convert_RGBA_def channel_max_def channel_min_def alpha_def)

text \<open>
  C8. \<open>remove_near_white_bg\<close> is idempotent: applied to its own output with the same
  threshold and tolerance it returns that output, and a pixel whose alpha is 0 keeps alpha 0.
\<close>
theorem remove_near_white_bg_idempotent:
  "remove_near_white_bg (remove_near_white_bg img threshold tolerance) threshold tolerance =
     remove_near_white_bg img threshold tolerance \<and>
   (\<forall>j < length (pixels img). \<forall>i < length (pixels img ! j).
      alpha (pixels (convert_RGBA img) ! j ! i) = 0 \<longrightarrow>
      alpha (pixels (remove_near_white_bg img threshold tolerance) ! j ! i) = 0)"
proof
  have m: "mode (remove_near_white_bg img threshold tolerance) = RGBA"
    by (simp add: remove_near_white_bg_def Let_def convert_RGBA_geometry)
  have "remove_near_white_bg (remove_near_white_bg img threshold tolerance) threshold tolerance =
        (remove_near_white_bg img threshold tolerance)
          \<lparr>pixels := map (map (remove_pixel threshold tolerance))
             (pixels (remove_near_white_bg img threshold tolerance))\<rparr>"
    by (simp add: remove_near_white_bg_def[of "remove_near_white_bg img threshold tolerance"]
          convert_RGBA_idem[OF m] Let_def remove_pixel_def)
  also have "map (map (remove_pixel threshold tolerance))
               (pixels (remove_near_white_bg img threshold tolerance)) =
             pixels (remove_near_white_bg img threshold tolerance)"
    by (simp add: remove_near_white_bg_pixels comp_def remove_pixel_idem)
  finally show "remove_near_white_bg (remove_near_white_bg img threshold tolerance) threshold tolerance =
     remove_near_white_bg img threshold tolerance" by simp
  show "\<forall>j < length (pixels img). \<forall>i < length (pixels img ! j).
      alpha (pixels (convert_RGBA img) ! j ! i) = 0 \<longrightarrow>
      alpha (pixels (remove_near_white_bg img threshold tolerance) ! j ! i) = 0"
    by (simp add: remove_near_white_bg_nth remove_pixel_alpha)
qed

text \<open>
  Idempotence at \<open>faded\<close>, whose first pixel is transparent.
\<close>
theorem remove_near_white_bg_idempotent_witness:
  "(0::nat) < length (pixels faded) \<and> (0::nat) < length (pixels faded ! 0) \<and>
   alpha (pixels (convert_RGBA faded) ! 0 ! 0) = 0 \<and>
   alpha (pixels (remove_near_white_bg faded 245 15) ! 0 ! 0) = 0 \<and>
   remove_near_white_bg (remove_near_white_bg faded 245 15) 245 15 =
     remove_near_white_bg faded 245 15"
proof -
  have h: "(0::nat) < length (pixels faded)" "(0::nat) < length (pixels faded ! 0)"
    "alpha (pixels (convert_RGBA faded) ! 0 ! 0) = 0"
    by (simp_all add: faded_def convert_RGBA_def alpha_def)
  from remove_near_white_bg_idempotent [of faded 245 15] h show ?thesis by blast
qed

text \<open>
  C9. The image returned by \<open>remove_near_white_bg\<close> has the width and the height of the
  input, rows of the same lengths, and the red, green and blue channels of every pixel
  unchanged: it differs from the input converted to \<open>RGBA\<close> in the alpha channel only.
\<close>
theorem remove_near_white_bg_frame:
  "width (remove_near_white_bg img threshold tolerance) = width img \<and>
   height (remove_near_white_bg img threshold tolerance) = height img \<and>
   length (pixels (remove_near_white_bg img threshold tolerance)) = length (pixels img) \<and>
   map length (pixels (remove_near_white_bg img threshold tolerance)) = map length (pixels img) \<and>
   map (map rgb) (pixels (remove_near_white_bg img threshold tolerance)) =
     map (map rgb) (pixels (convert_RGBA img)) \<and>
   map (map rgb) (pixels (convert_RGBA img)) = map (map rgb) (pixels img)"
proof -
  have "map (map rgb) (pixels (remove_near_white_bg img threshold tolerance)) =
     map (map rgb) (pixels (convert_RGBA img))"
    by (simp add: remove_near_white_bg_pixels comp_def remove_pixel_rgb)
  moreover have "map length (pixels (remove_near_white_bg img threshold tolerance)) = map length (pixels img)"
    using convert_RGBA_geometry(5)[of img] by (simp add: remove_near_white_bg_pixels comp_def)
  ultimately show ?thesis
    by (simp add: convert_RGBA_rgb remove_near_white_bg_pixels convert_RGBA_geometry)
      (simp add: remove_near_white_bg_def Let_def convert_RGBA_geometry)
qed

section \<open>The geometry of a placement\<close>

lemma fit_on_square_geometry_eq:
  assumes "w \<noteq> 0" and "h \<noteq> 0"
  shows "fit_on_square_geometry w h sz p =
    Inr (scaled_side w (fit_scale w h (padded_side sz p) (padded_side sz p)),
         scaled_side h (fit_scale w h (padded_side sz p) (padded_side sz p)),
         (sz - scaled_side w (fit_scale w h (padded_side sz p) (padded_side sz p))) div 2,
         (sz - scaled_side h (fit_scale w h (padded_side sz p) (padded_side sz p))) div 2)"
  using assms
  by (simp add: fit_on_square_geometry_def Let_def scaled_side_def fit_scale_def padded_side_def)

lemma center_on_canvas_geometry_eq:
  assumes "w \<noteq> 0" and "h \<noteq> 0"
  shows "center_on_canvas_geometry w h cw ch p =
    Inr (scaled_side w (fit_scale w h (padded_side cw p) (padded_side ch p)),
         scaled_side h (fit_scale w h (padded_side cw p) (padded_side ch p)),
         (cw - scaled_side w (fit_scale w h (padded_side cw p) (padded_side ch p))) div 2,
         (ch - scaled_side h (fit_scale w h (padded_side cw p) (padded_side ch p))) div 2)"
  using assms
  by (simp add: center_on_canvas_geometry_def Let_def scaled_side_def fit_scale_def padded_side_def)

lemma fit_on_square_is_center_on_canvas_geometry:
  "fit_on_square_geometry w h sz p = center_on_canvas_geometry w h sz sz p"
  by (simp add: fit_on_square_geometry_def center_on_canvas_geometry_def Let_def)

lemma py_int_py_round:
  "max 1 (py_int v) \<le> max 1 (py_round v)" "max 1 (py_round v) \<le> max 1 (py_int v) + 1"
proof -
  have f: "of_int \<lfloor>v\<rfloor> \<le> v" "v < of_int \<lfloor>v\<rfloor> + 1" by linarith+
  have r: "\<lfloor>v\<rfloor> \<le> py_round v" "py_round v \<le> \<lfloor>v\<rfloor> + 1"
    by (simp_all add: py_round_def Let_def)
  show "max 1 (py_int v) \<le> max 1 (py_round v)"
  proof (cases "0 \<le> v")
    case True
    then have "py_int v = \<lfloor>v\<rfloor>" by (simp add: py_int_def)
    then show ?thesis using r by linarith
  next
    case False
    then have "\<lceil>v\<rceil> \<le> 0" by (simp add: ceiling_le_iff)
    then have "py_int v \<le> 0" using False by (simp add: py_int_def)
    then show ?thesis by linarith
  qed
  show "max 1 (py_round v) \<le> max 1 (py_int v) + 1"
  proof (cases "0 \<le> v")
    case True
    then have "py_int v = \<lfloor>v\<rfloor>" by (simp add: py_int_def)
    then show ?thesis using r by linarith
  next
    case False
    then have "\<lfloor>v\<rfloor> < 0" by (simp add: floor_less_iff)
    then have "py_round v \<le> 0" using r by linarith
    then show ?thesis by linarith
  qed
qed

lemma fit_scale_nonneg:
  assumes "0 < w" and "0 < h" and "0 \<le> mw" and "0 \<le> mh"
  shows "0 \<le> fit_scale w h mw mh"
  unfolding fit_scale_def using assms by (simp add: fl_bounds_nonneg(1))

lemma scaled_side_le_box:
  assumes "0 < w" and "0 < h" and "0 \<le> mw" and "mw \<le> 2 ^ 31" and "0 \<le> mh" and "mh \<le> 2 ^ 31"
  shows "scaled_side w (fit_scale w h mw mh) \<le> max 1 mw"
    and "scaled_side h (fit_scale w h mw mh) \<le> max 1 mh"
proof -
  have s: "0 \<le> fit_scale w h mw mh" using assms(1,2,3,5) by (rule fit_scale_nonneg)
  have "fit_scale w h mw mh \<le> fl (of_int mw / of_int w)" by (simp add: fit_scale_def)
  then have "py_int (fl (of_int w * fit_scale w h mw mh)) \<le> mw"
    using assms(1,3,4) s by (intro scaled_side_le) 
  then show "scaled_side w (fit_scale w h mw mh) \<le> max 1 mw" by (simp add: scaled_side_def)
  have "fit_scale w h mw mh \<le> fl (of_int mh / of_int h)" by (simp add: fit_scale_def)
  then have "py_int (fl (of_int h * fit_scale w h mw mh)) \<le> mh"
    using assms(2,5,6) s by (intro scaled_side_le) 
  then show "scaled_side h (fit_scale w h mw mh) \<le> max 1 mh" by (simp add: scaled_side_def)
qed

lemma content_within_padding:
  assumes "0 < w" and "0 < h" and "0 \<le> cw" and "cw < 2 ^ 31" and "0 \<le> ch" and "ch < 2 ^ 31"
      and "0 \<le> p" and "p < 1/2"
  shows "of_int (scaled_side w (fit_scale w h (padded_side cw p) (padded_side ch p)))
           \<le> of_int cw * (1 - 2 * p) + 1"
    and "of_int (scaled_side h (fit_scale w h (padded_side cw p) (padded_side ch p)))
           \<le> of_int ch * (1 - 2 * p) + 1"
proof -
  define d :: rat where "d = 5 / 2 ^ 22"
  have d: "d \<le> 1" by (simp add: d_def)
  note bw = padded_side_bounds[OF assms(3,4,7,8), folded padded_side_def d_def]
  note bh = padded_side_bounds[OF assms(5,6,7,8), folded padded_side_def d_def]
  note le = scaled_side_le_box[OF assms(1,2) bw(1,3) bh(1,3)]
  have Xw: "0 \<le> of_int cw * (1 - 2 * p)" using assms by simp
  have Xh: "0 \<le> of_int ch * (1 - 2 * p)" using assms by simp
  have "(of_int (max 1 (padded_side cw p)) :: rat) \<le> of_int cw * (1 - 2 * p) + 1"
    using bw(2) Xw d by (simp add: max_def)
  moreover have "(of_int (scaled_side w (fit_scale w h (padded_side cw p) (padded_side ch p))) :: rat)
      \<le> of_int (max 1 (padded_side cw p))" using le(1) by (simp only: of_int_le_iff)
  ultimately show "of_int (scaled_side w (fit_scale w h (padded_side cw p) (padded_side ch p)))
           \<le> of_int cw * (1 - 2 * p) + 1" by linarith
  have "(of_int (max 1 (padded_side ch p)) :: rat) \<le> of_int ch * (1 - 2 * p) + 1"
    using bh(2) Xh d by (simp add: max_def)
  moreover have "(of_int (scaled_side h (fit_scale w h (padded_side cw p) (padded_side ch p))) :: rat)
      \<le> of_int (max 1 (padded_side ch p))" using le(2) by (simp only: of_int_le_iff)
  ultimately show "of_int (scaled_side h (fit_scale w h (padded_side cw p) (padded_side ch p)))
           \<le> of_int ch * (1 - 2 * p) + 1" by linarith
qed

lemma resize_simps:
  "mode (resize lanczos img (w, h)) = mode img"
  "width (resize lanczos img (w, h)) = w"
  "height (resize lanczos img (w, h)) = h"
  by (simp_all add: resize_def)

lemma paste_self_mask:
  assumes "mode im = RGBA"
  shows "\<exists>c. paste canvas im xy im = Inr c"
  using assms by (cases xy) (simp add: paste_def)

lemma fit_on_square_total:
  assumes "mode img = RGBA" and "width img \<noteq> 0" and "height img \<noteq> 0" and "0 \<le> sz"
  shows "\<exists>c. fit_on_square lanczos img sz p = Inr c"
proof -
  obtain canvas where c: "new_image RGBA sz sz (0, 0, 0, 0) = Inr canvas"
    using assms(4) by (simp add: new_image_def)
  show ?thesis
    unfolding fit_on_square_def c fit_on_square_geometry_eq[OF assms(2,3)] Let_def sum.case prod.case
    by (rule paste_self_mask) (simp add: resize_simps assms(1))
qed

lemma center_on_canvas_total:
  assumes "mode img = RGBA" and "width img \<noteq> 0" and "height img \<noteq> 0" and "0 \<le> w" and "0 \<le> h"
  shows "\<exists>c. center_on_canvas lanczos img w h p = Inr c"
proof -
  obtain canvas where c: "new_image RGBA w h (255, 255, 255, 0) = Inr canvas"
    using assms(4,5) by (simp add: new_image_def)
  show ?thesis
    unfolding center_on_canvas_def c center_on_canvas_geometry_eq[OF assms(2,3)] Let_def sum.case prod.case
    by (rule paste_self_mask) (simp add: resize_simps assms(1))
qed

text \<open>
  C1 as stated fails. For a source of 3 by 2 pixels on a canvas of side 10 without padding
  the scale is \<open>10 / 3\<close>; the source computes the new height as \<open>int(6.67) = 6\<close>, where
  rounding to the nearest integer gives 7, in exact arithmetic and in floats alike.
\<close>
theorem new_size_round_counterexample:
  "fit_on_square_geometry 3 2 10 0 = Inr (10, 6, 0, 2) \<and>
   center_on_canvas_geometry 3 2 10 10 0 = Inr (10, 6, 0, 2) \<and>
   padded_side 10 0 = 10 \<and>
   spec_new_size 3 2 10 10 = (10, 7) \<and>
   max 1 (py_round (fl (2 * fit_scale 3 2 10 10))) = 7"
  by code_simp

text \<open>
  C1, amended. For every source of positive dimensions, \<open>fit_on_square\<close> and
  \<open>center_on_canvas\<close> compute the size of the resampled content as
  \<open>new_w = max(1, int(src_w * scale))\<close> and \<open>new_h = max(1, int(src_h * scale))\<close>
  with \<open>scale = min(max_w / src_w, max_h / src_h)\<close>, where \<open>int\<close> truncates: each side
  is the rounded value \<open>max(1, round(src * scale))\<close> or one pixel less.
\<close>
theorem new_size_truncates:
  assumes "0 < src_w" and "0 < src_h"
  shows "(\<exists>new_w new_h x y.
            fit_on_square_geometry src_w src_h sz pad_ratio = Inr (new_w, new_h, x, y) \<and>
            (let max_side = padded_side sz pad_ratio;
                 scale = fit_scale src_w src_h max_side max_side
             in new_w = max 1 (py_int (fl (of_int src_w * scale))) \<and>
                new_h = max 1 (py_int (fl (of_int src_h * scale))) \<and>
                new_w \<le> max 1 (py_round (fl (of_int src_w * scale))) \<and>
                max 1 (py_round (fl (of_int src_w * scale))) \<le> new_w + 1 \<and>
                new_h \<le> max 1 (py_round (fl (of_int src_h * scale))) \<and>
                max 1 (py_round (fl (of_int src_h * scale))) \<le> new_h + 1)) \<and>
         (\<exists>new_w new_h x y.
            center_on_canvas_geometry src_w src_h canvas_w canvas_h pad_ratio = Inr (new_w, new_h, x, y) \<and>
            (let max_w = padded_side canvas_w pad_ratio;
                 max_h = padded_side canvas_h pad_ratio;
                 scale = fit_scale src_w src_h max_w max_h
             in new_w = max 1 (py_int (fl (of_int src_w * scale))) \<and>
                new_h = max 1 (py_int (fl (of_int src_h * scale))) \<and>
                new_w \<le> max 1 (py_round (fl (of_int src_w * scale))) \<and>
                max 1 (py_round (fl (of_int src_w * scale))) \<le> new_w + 1 \<and>
                new_h \<le> max 1 (py_round (fl (of_int src_h * scale))) \<and>
                max 1 (py_round (fl (of_int src_h * scale))) \<le> new_h + 1))"
proof -
  have w: "src_w \<noteq> 0" and h: "src_h \<noteq> 0" using assms by simp_all
  have k: "scaled_side s c = max 1 (py_int (fl (of_int s * c)))"
    "scaled_side s c \<le> max 1 (py_round (fl (of_int s * c)))"
    "max 1 (py_round (fl (of_int s * c))) \<le> scaled_side s c + 1" for s c
    unfolding scaled_side_def by (rule refl py_int_py_round)+
  show ?thesis
    unfolding fit_on_square_geometry_eq[OF w h] center_on_canvas_geometry_eq[OF w h] Let_def
    by (intro conjI exI) (rule refl k)+
qed

text \<open>
  The amended rule at the source of 3 by 2 pixels on a canvas of side 10.
\<close>
theorem new_size_truncates_witness:
  "(0::int) < 3 \<and> (0::int) < 2 \<and>
   (\<exists>new_w new_h x y.
      fit_on_square_geometry 3 2 10 0 = Inr (new_w, new_h, x, y) \<and>
      new_h = max 1 (py_int (fl (2 * fit_scale 3 2 (padded_side 10 0) (padded_side 10 0)))))"
  using new_size_truncates [of 3 2 10 0 10 10] by (auto simp add: Let_def)

text \<open>
  C4. For every source of positive dimensions the top-left corner computed by
  \<open>fit_on_square\<close> and \<open>center_on_canvas\<close> is
  \<open>x = floor((canvas_w - new_w) / 2)\<close> and \<open>y = floor((canvas_h - new_h) / 2)\<close>, for the
  size \<open>(new_w, new_h)\<close> of the resampled content.
\<close>
theorem placement_centered:
  assumes "0 < src_w" and "0 < src_h"
  shows "(\<exists>new_w new_h x y.
            fit_on_square_geometry src_w src_h sz pad_ratio = Inr (new_w, new_h, x, y) \<and>
            x = \<lfloor>(of_int sz - of_int new_w :: rat) / 2\<rfloor> \<and>
            y = \<lfloor>(of_int sz - of_int new_h :: rat) / 2\<rfloor>) \<and>
         (\<exists>new_w new_h x y.
            center_on_canvas_geometry src_w src_h canvas_w canvas_h pad_ratio = Inr (new_w, new_h, x, y) \<and>
            x = \<lfloor>(of_int canvas_w - of_int new_w :: rat) / 2\<rfloor> \<and>
            y = \<lfloor>(of_int canvas_h - of_int new_h :: rat) / 2\<rfloor>)"
proof -
  have w: "src_w \<noteq> 0" and h: "src_h \<noteq> 0" using assms by simp_all
  have f: "\<lfloor>(of_int a - of_int b :: rat) / 2\<rfloor> = (a - b) div 2" for a b :: int
    using floor_divide_of_int_eq[of "a - b" 2, where ?'a = rat] by simp
  show ?thesis
    unfolding fit_on_square_geometry_eq[OF w h] center_on_canvas_geometry_eq[OF w h] f
    by simp
qed

text \<open>
  The corner for a source of 800 by 400 pixels on a canvas of side 192.
\<close>
theorem placement_centered_witness:
  "(0::int) < 800 \<and> (0::int) < 400 \<and>
   (\<exists>new_w new_h x y.
      fit_on_square_geometry 800 400 192 (1/8) = Inr (new_w, new_h, x, y) \<and>
      x = \<lfloor>(192 - of_int new_w :: rat) / 2\<rfloor> \<and> y = \<lfloor>(192 - of_int new_h :: rat) / 2\<rfloor>)"
  using placement_centered [of 800 400 192 "1/8" 192 192] by simp

text \<open>
  C2. For every source of positive dimensions, every canvas side from 0 to below \<open>2 ^ 31\<close>
  and every padding ratio from 0 to below one half, the width and the height of the content
  placed by \<open>fit_on_square\<close> and \<open>center_on_canvas\<close> exceed
  \<open>canvas_dim * (1 - 2 * pad_ratio)\<close> by at most one pixel. The bound is on the exact
  product, while the source computes in floats.
\<close>
theorem content_within_padded_canvas:
  assumes "0 < src_w" and "0 < src_h"
      and "0 \<le> sz" and "sz < 2 ^ 31"
      and "0 \<le> canvas_w" and "canvas_w < 2 ^ 31" and "0 \<le> canvas_h" and "canvas_h < 2 ^ 31"
      and "0 \<le> pad_ratio" and "pad_ratio < 1/2"
  shows "(\<exists>new_w new_h x y.
            fit_on_square_geometry src_w src_h sz pad_ratio = Inr (new_w, new_h, x, y) \<and>
            of_int new_w \<le> of_int sz * (1 - 2 * pad_ratio) + 1 \<and>
            of_int new_h \<le> of_int sz * (1 - 2 * pad_ratio) + 1) \<and>
         (\<exists>new_w new_h x y.
            center_on_canvas_geometry src_w src_h canvas_w canvas_h pad_ratio = Inr (new_w, new_h, x, y) \<and>
            of_int new_w \<le> of_int canvas_w * (1 - 2 * pad_ratio) + 1 \<and>
            of_int new_h \<le> of_int canvas_h * (1 - 2 * pad_ratio) + 1)"
proof -
  have w: "src_w \<noteq> 0" and h: "src_h \<noteq> 0" using assms by simp_all
  note sq = content_within_padding[OF assms(1,2) assms(3,4) assms(3,4) assms(9,10)]
  note re = content_within_padding[OF assms(1,2) assms(5,6) assms(7,8) assms(9,10)]
  show ?thesis
    unfolding fit_on_square_geometry_eq[OF w h] center_on_canvas_geometry_eq[OF w h]
    using sq re by simp
qed

text \<open>
  The bound for a source of 800 by 400 pixels, on a square of side 192 and on a canvas of
  1200 by 630, with a padding ratio of one eighth.
\<close>
theorem content_within_padded_canvas_witness:
  "(0::int) < 800 \<and> (0::int) < 400 \<and> (0::int) \<le> 192 \<and> (192::int) < 2 ^ 31 \<and>
   (0::int) \<le> 1200 \<and> (1200::int) < 2 ^ 31 \<and> (0::int) \<le> 630 \<and> (630::int) < 2 ^ 31 \<and>
   (0::rat) \<le> 1/8 \<and> (1/8 :: rat) < 1/2 \<and>
   (\<exists>new_w new_h x y.
      fit_on_square_geometry 800 400 192 (1/8) = Inr (new_w, new_h, x, y) \<and>
      (of_int new_w :: rat) \<le> 192 * (1 - 2 * (1/8)) + 1 \<and>
      (of_int new_h :: rat) \<le> 192 * (1 - 2 * (1/8)) + 1) \<and>
   (\<exists>new_w new_h x y.
      center_on_canvas_geometry 800 400 1200 630 (1/8) = Inr (new_w, new_h, x, y) \<and>
      (of_int new_w :: rat) \<le> 1200 * (1 - 2 * (1/8)) + 1 \<and>
      (of_int new_h :: rat) \<le> 630 * (1 - 2 * (1/8)) + 1)"
  using content_within_padded_canvas [of 800 400 192 1200 630 "1/8"] by simp

lemma fl_of_small_int:
  assumes "0 \<le> k" and "k \<le> 2 ^ 31"
  shows "fl (of_int k) = of_int k"
proof -
  have "\<bar>k\<bar> < 2 ^ 53" using assms by simp
  then show ?thesis by (rule fl_of_int)
qed

lemma one_pixel_scale:
  assumes "0 \<le> mw" and "mw \<le> 2 ^ 31" and "0 \<le> mh" and "mh \<le> 2 ^ 31"
  shows "fit_scale 1 1 mw mh = of_int (min mw mh)"
  by (simp add: fit_scale_def fl_of_small_int[OF assms(1,2)] fl_of_small_int[OF assms(3,4)])

lemma one_pixel_side:
  assumes "0 \<le> k" and "k \<le> 2 ^ 31"
  shows "scaled_side 1 (of_int k) = max 1 k"
  by (simp add: scaled_side_def fl_of_small_int[OF assms] py_int_of_int)

text \<open>
  C6 as stated fails. A source of one pixel is scaled up to the padded box: on a square of
  side 100 with padding ratio 0.1 the content is 80 by 80 pixels, and on a canvas of
  1200 by 630 with padding ratio 0.12 it is 478 by 478 pixels, not 1 by 1.
\<close>
theorem one_pixel_source_counterexample:
  "fit_on_square_geometry 1 1 100 (fl (1/10)) = Inr (80, 80, 10, 10) \<and>
   center_on_canvas_geometry 1 1 1200 630 (fl (3/25)) = Inr (478, 478, 361, 76)"
  by code_simp

text \<open>
  C6, amended. For a source of one pixel, every canvas side from 0 to below \<open>2 ^ 31\<close> and
  every padding ratio from 0 to below one half, the placement does not fail and the content
  is a square of side \<open>max(1, min(max_w, max_h))\<close>, the smaller side of the padded box
  and at least 1: it is one pixel only where that box is no larger. For a source of mode
  \<open>RGBA\<close> both \<open>fit_on_square\<close> and \<open>center_on_canvas\<close> return a canvas.
\<close>
theorem one_pixel_source:
  assumes "0 \<le> sz" and "sz < 2 ^ 31"
      and "0 \<le> canvas_w" and "canvas_w < 2 ^ 31" and "0 \<le> canvas_h" and "canvas_h < 2 ^ 31"
      and "0 \<le> pad_ratio" and "pad_ratio < 1/2"
      and "mode img = RGBA" and "width img = 1" and "height img = 1"
  shows "(let n = max 1 (padded_side sz pad_ratio)
          in fit_on_square_geometry 1 1 sz pad_ratio = Inr (n, n, (sz - n) div 2, (sz - n) div 2)) \<and>
         (let n = max 1 (min (padded_side canvas_w pad_ratio) (padded_side canvas_h pad_ratio))
          in center_on_canvas_geometry 1 1 canvas_w canvas_h pad_ratio =
               Inr (n, n, (canvas_w - n) div 2, (canvas_h - n) div 2)) \<and>
         (\<exists>c. fit_on_square lanczos img sz pad_ratio = Inr c) \<and>
         (\<exists>c. center_on_canvas lanczos img canvas_w canvas_h pad_ratio = Inr c)"
proof -
  note bs = padded_side_bounds[OF assms(1,2,7,8), folded padded_side_def]
  note bw = padded_side_bounds[OF assms(3,4,7,8), folded padded_side_def]
  note bh = padded_side_bounds[OF assms(5,6,7,8), folded padded_side_def]
  have s: "fit_scale 1 1 (padded_side sz pad_ratio) (padded_side sz pad_ratio) =
             of_int (padded_side sz pad_ratio)"
    using one_pixel_scale[OF bs(1,3) bs(1,3)] by simp
  have r: "fit_scale 1 1 (padded_side canvas_w pad_ratio) (padded_side canvas_h pad_ratio) =
             of_int (min (padded_side canvas_w pad_ratio) (padded_side canvas_h pad_ratio))"
    by (rule one_pixel_scale[OF bw(1,3) bh(1,3)])
  have m: "0 \<le> min (padded_side canvas_w pad_ratio) (padded_side canvas_h pad_ratio)"
          "min (padded_side canvas_w pad_ratio) (padded_side canvas_h pad_ratio) \<le> 2 ^ 31"
    using bw(1,3) bh(1,3) by simp_all
  have 1: "fit_on_square_geometry 1 1 sz pad_ratio =
      Inr (max 1 (padded_side sz pad_ratio), max 1 (padded_side sz pad_ratio),
           (sz - max 1 (padded_side sz pad_ratio)) div 2, (sz - max 1 (padded_side sz pad_ratio)) div 2)"
    by (simp only: fit_on_square_geometry_eq[of 1 1, simplified] s one_pixel_side[OF bs(1,3)])
  have 2: "center_on_canvas_geometry 1 1 canvas_w canvas_h pad_ratio =
      Inr (max 1 (min (padded_side canvas_w pad_ratio) (padded_side canvas_h pad_ratio)),
           max 1 (min (padded_side canvas_w pad_ratio) (padded_side canvas_h pad_ratio)),
           (canvas_w - max 1 (min (padded_side canvas_w pad_ratio) (padded_side canvas_h pad_ratio))) div 2,
           (canvas_h - max 1 (min (padded_side canvas_w pad_ratio) (padded_side canvas_h pad_ratio))) div 2)"
    by (simp only: center_on_canvas_geometry_eq[of 1 1, simplified] r one_pixel_side[OF m])
  have w: "width img \<noteq> 0" "height img \<noteq> 0" using assms(10,11) by simp_all
  show ?thesis
    unfolding Let_def
    using 1 2 fit_on_square_total[OF assms(9) w assms(1)]
      center_on_canvas_total[OF assms(9) w assms(3,5)] by blast
qed

text \<open>
  The amended statement at the one-pixel image \<open>dot\<close>.
\<close>
theorem one_pixel_source_witness:
  "(0::int) \<le> 100 \<and> (100::int) < 2 ^ 31 \<and> (0::int) \<le> 1200 \<and> (1200::int) < 2 ^ 31 \<and>
   (0::int) \<le> 630 \<and> (630::int) < 2 ^ 31 \<and> (0::rat) \<le> 1/8 \<and> (1/8::rat) < 1/2 \<and>
   mode dot = RGBA \<and> width dot = 1 \<and> height dot = 1 \<and>
   (let n = max 1 (padded_side 100 (1/8))
    in fit_on_square_geometry 1 1 100 (1/8) = Inr (n, n, (100 - n) div 2, (100 - n) div 2)) \<and>
   (let n = max 1 (min (padded_side 1200 (1/8)) (padded_side 630 (1/8)))
    in center_on_canvas_geometry 1 1 1200 630 (1/8) = Inr (n, n, (1200 - n) div 2, (630 - n) div 2)) \<and>
   (\<exists>c. fit_on_square nearest dot 100 (1/8) = Inr c) \<and>
   (\<exists>c. center_on_canvas nearest dot 1200 630 (1/8) = Inr c)"
  using one_pixel_source [of 100 1200 630 "1/8" dot nearest] by (simp add: dot_def)

section \<open>Pasting onto a canvas\<close>

lemma div255_exact: "x \<le> 255 \<Longrightarrow> div255 (x * 255) = x"
proof -
  assume x: "x \<le> 255"
  have 1: "(x * 255 + 128) div 256 = (if x \<le> 128 then x else x - 1)"
    using x by (simp split: if_splits) linarith
  have "((x * 255 + 128) div 256 + (x * 255 + 128)) div 256 = x"
    unfolding 1 using x by (simp split: if_splits)
  then show ?thesis by (simp add: div255_def Let_def)
qed

lemma blend_transparent: "blend 0 in1 in2 = in1"
proof -
  have "unat in1 < 2 ^ 8" using unsigned_less[of in1] by simp
  then have "unat in1 \<le> 255" by simp
  then have "div255 (unat in1 * 255) = unat in1" by (rule div255_exact)
  then show ?thesis by (simp add: blend_def)
qed


lemma blend_opaque: "blend 255 in1 in2 = in2"
proof -
  have "unat in2 < 2 ^ 8" using unsigned_less[of in2] by simp
  then have "unat in2 \<le> 255" by simp
  then have "div255 (unat in2 * 255) = unat in2" by (rule div255_exact)
  then show ?thesis by (simp add: blend_def)
qed

lemma blend_pixel_transparent: "blend_pixel 0 p q = p"
  by (cases p, cases q) (simp add: blend_pixel_def blend_transparent)

lemma blend_pixel_opaque: "blend_pixel 255 p q = q"
  by (cases p, cases q) (simp add: blend_pixel_def blend_opaque)

lemma blend_pixel_alpha:
  "alpha (blend_pixel m p q) = blend m (alpha p) (alpha q)"
  by (cases p, cases q) (simp add: blend_pixel_def alpha_def)

lemma paste_result:
  assumes "paste canvas im (x, y) msk = Inr c"
  shows "mode c = mode canvas" and "width c = width canvas" and "height c = height canvas"
    and "length (pixels c) = length (pixels canvas)"
    and "j < length (pixels canvas) \<Longrightarrow> length (pixels c ! j) = length (pixels canvas ! j)"
    and "j < length (pixels canvas) \<Longrightarrow> i < length (pixels canvas ! j) \<Longrightarrow>
           pixels c ! j ! i =
             (if in_box (x, y) im i j
              then blend_pixel (alpha (pixel_at msk (int i - x) (int j - y))) (pixels canvas ! j ! i)
                     (pixel_at im (int i - x) (int j - y))
              else pixels canvas ! j ! i)"
proof -
  have c: "c = canvas\<lparr>pixels :=
       map (\<lambda>(j, row).
         map (\<lambda>(i, p).
           if x \<le> int i \<and> int i < x + width im \<and> y \<le> int j \<and> int j < y + height im
           then blend_pixel (alpha (pixel_at msk (int i - x) (int j - y))) p
                  (pixel_at im (int i - x) (int j - y))
           else p) (enumerate 0 row)) (enumerate 0 (pixels canvas))\<rparr>"
    using assms by (simp add: paste_def split: if_splits)
  show "mode c = mode canvas" "width c = width canvas" "height c = height canvas"
    "length (pixels c) = length (pixels canvas)"
    by (simp_all add: c)
  show "length (pixels c ! j) = length (pixels canvas ! j)" if "j < length (pixels canvas)"
    using that by (simp add: c nth_enumerate_eq)
  show "pixels c ! j ! i =
             (if in_box (x, y) im i j
              then blend_pixel (alpha (pixel_at msk (int i - x) (int j - y))) (pixels canvas ! j ! i)
                     (pixel_at im (int i - x) (int j - y))
              else pixels canvas ! j ! i)"
    if "j < length (pixels canvas)" "i < length (pixels canvas ! j)"
    using that by (simp add: c nth_enumerate_eq in_box_def)
qed

lemma new_image_result:
  assumes "new_image m w h color = Inr c"
  shows "mode c = m" and "width c = w" and "height c = h" and "0 \<le> w" and "0 \<le> h"
    and "length (pixels c) = nat h"
    and "j < nat h \<Longrightarrow> length (pixels c ! j) = nat w"
    and "j < nat h \<Longrightarrow> i < nat w \<Longrightarrow> pixels c ! j ! i = color"
proof -
  have c: "c = \<lparr>mode = m, width = w, height = h,
                pixels = replicate (nat h) (replicate (nat w) color)\<rparr>" and "\<not> (w < 0 \<or> h < 0)"
    using assms by (simp_all add: new_image_def split: if_splits)
  then show "mode c = m" "width c = w" "height c = h" "0 \<le> w" "0 \<le> h" "length (pixels c) = nat h"
    "j < nat h \<Longrightarrow> length (pixels c ! j) = nat w"
    "j < nat h \<Longrightarrow> i < nat w \<Longrightarrow> pixels c ! j ! i = color"
    by simp_all
qed

lemma paste_on_new_image:
  assumes "new_image m w h fill = Inr canvas" and "paste canvas im (x, y) msk = Inr c"
  shows "mode c = m" and "width c = w" and "height c = h"
    and "length (pixels c) = nat h"
    and "j < nat h \<Longrightarrow> length (pixels c ! j) = nat w"
    and "j < nat h \<Longrightarrow> i < nat w \<Longrightarrow>
           pixels c ! j ! i =
             (if in_box (x, y) im i j
              then blend_pixel (alpha (pixel_at msk (int i - x) (int j - y))) fill
                     (pixel_at im (int i - x) (int j - y))
              else fill)"
proof -
  note n = new_image_result[OF assms(1)]
  note p = paste_result[OF assms(2)]
  show "mode c = m" "width c = w" "height c = h" "length (pixels c) = nat h"
    by (simp_all add: n p)
  show "length (pixels c ! j) = nat w" if "j < nat h"
    using that by (simp add: n p)
  show "pixels c ! j ! i =
             (if in_box (x, y) im i j
              then blend_pixel (alpha (pixel_at msk (int i - x) (int j - y))) fill
                     (pixel_at im (int i - x) (int j - y))
              else fill)" if "j < nat h" "i < nat w"
    using that by (simp add: n p)
qed

lemma in_box_resize:
  "in_box (x, y) (resize lanczos img (nw, nh)) i j \<longleftrightarrow>
     x \<le> int i \<and> int i < x + nw \<and> y \<le> int j \<and> int j < y + nh"
  by (simp add: in_box_def resize_simps)

lemma fit_on_square_paste:
  assumes "mode img = RGBA" and "width img \<noteq> 0" and "height img \<noteq> 0" and "0 \<le> sz"
      and "fit_on_square_geometry (width img) (height img) sz p = Inr (nw, nh, x, y)"
  shows "\<exists>canvas c. new_image RGBA sz sz (0, 0, 0, 0) = Inr canvas \<and>
           fit_on_square lanczos img sz p = Inr c \<and>
           paste canvas (resize lanczos img (nw, nh)) (x, y) (resize lanczos img (nw, nh)) = Inr c"
proof -
  obtain canvas where c: "new_image RGBA sz sz (0, 0, 0, 0) = Inr canvas"
    using assms(4) by (simp add: new_image_def)
  have "mode (resize lanczos img (nw, nh)) = RGBA" by (simp add: resize_simps assms(1))
  then obtain r where r: "paste canvas (resize lanczos img (nw, nh)) (x, y) (resize lanczos img (nw, nh)) = Inr r"
    using paste_self_mask by blast
  have "fit_on_square lanczos img sz p = Inr r"
    by (simp add: fit_on_square_def c assms(5) Let_def r)
  then show ?thesis using c r by blast
qed

lemma center_on_canvas_paste:
  assumes "mode img = RGBA" and "width img \<noteq> 0" and "height img \<noteq> 0" and "0 \<le> w" and "0 \<le> h"
      and "center_on_canvas_geometry (width img) (height img) w h p = Inr (nw, nh, x, y)"
  shows "\<exists>canvas c. new_image RGBA w h (255, 255, 255, 0) = Inr canvas \<and>
           center_on_canvas lanczos img w h p = Inr c \<and>
           paste canvas (resize lanczos img (nw, nh)) (x, y) (resize lanczos img (nw, nh)) = Inr c"
proof -
  obtain canvas where c: "new_image RGBA w h (255, 255, 255, 0) = Inr canvas"
    using assms(4,5) by (simp add: new_image_def)
  have "mode (resize lanczos img (nw, nh)) = RGBA" by (simp add: resize_simps assms(1))
  then obtain r where r: "paste canvas (resize lanczos img (nw, nh)) (x, y) (resize lanczos img (nw, nh)) = Inr r"
    using paste_self_mask by blast
  have "center_on_canvas lanczos img w h p = Inr r"
    by (simp add: center_on_canvas_def c assms(6) Let_def r)
  then show ?thesis using c r by blast
qed

lemma center_canvas_eq: "center_canvas lanczos img w h p = center_on_canvas lanczos img w h p"
  by (simp add: center_canvas_def center_on_canvas_def center_on_canvas_geometry_def Let_def
        resize_simps split: sum.split)

lemma flag_height_3_2_900: "flag_height 3 2 900 = Inr 600"
  by code_simp

lemma dot_geometry: "fit_on_square_geometry 1 1 4 (1/4) = Inr (2, 2, 1, 1)"
  by code_simp

lemma pasted_alpha:
  "alpha (if b then blend_pixel m fill q else fill) =
     (if b then blend m (alpha fill) (alpha q) else alpha fill)"
  by (simp add: blend_pixel_alpha)

text \<open>
  C5 as stated fails. \<open>fit_on_square\<close> fills its canvas with \<open>(0, 0, 0, 0)\<close> and
  \<open>center_on_canvas\<close> with \<open>(255, 255, 255, 0)\<close>: for the one-pixel image \<open>dot\<close> on a
  square of side 4 with padding ratio one quarter the content covers the middle, and the
  pixel in the top-left corner of the two results differs.
\<close>
theorem fit_on_square_fill_counterexample:
  "pixel_of (fit_on_square nearest dot 4 (1/4)) 0 0 = Inr (0, 0, 0, 0) \<and>
   pixel_of (center_on_canvas nearest dot 4 4 (1/4)) 0 0 = Inr (255, 255, 255, 0)"
proof -
  have d: "mode dot = RGBA" "width dot \<noteq> 0" "height dot \<noteq> 0" "width dot = 1" "height dot = 1"
    by (simp_all add: dot_def)
  have g1: "fit_on_square_geometry (width dot) (height dot) 4 (1/4) = Inr (2, 2, 1, 1)"
    unfolding d(4,5) by (rule dot_geometry)
  have g2: "center_on_canvas_geometry (width dot) (height dot) 4 4 (1/4) = Inr (2, 2, 1, 1)"
    using g1 by (simp only: fit_on_square_is_center_on_canvas_geometry)
  have nn: "(0::int) \<le> 4" by simp
  have b: "(0::nat) < nat 4" by simp
  obtain k1 c1 where k1: "new_image RGBA 4 4 (0, 0, 0, 0) = Inr k1"
    and c1: "fit_on_square nearest dot 4 (1/4) = Inr c1"
    and p1: "paste k1 (resize nearest dot (2, 2)) (1, 1) (resize nearest dot (2, 2)) = Inr c1"
    using fit_on_square_paste[OF d(1-3) nn g1] by blast
  obtain k2 c2 where k2: "new_image RGBA 4 4 (255, 255, 255, 0) = Inr k2"
    and c2: "center_on_canvas nearest dot 4 4 (1/4) = Inr c2"
    and p2: "paste k2 (resize nearest dot (2, 2)) (1, 1) (resize nearest dot (2, 2)) = Inr c2"
    using center_on_canvas_paste[OF d(1-3) nn nn g2] by blast
  have "pixel_at c1 0 0 = (0, 0, 0, 0)"
    unfolding pixel_at_def using paste_on_new_image(6)[OF k1 p1 b b]
    by (simp add: in_box_resize)
  moreover have "pixel_at c2 0 0 = (255, 255, 255, 0)"
    unfolding pixel_at_def using paste_on_new_image(6)[OF k2 p2 b b]
    by (simp add: in_box_resize)
  ultimately show ?thesis by (simp add: pixel_of_def c1 c2)
qed

text \<open>
  C5, amended. For every image of mode \<open>RGBA\<close> with positive dimensions and every size,
  \<open>fit_on_square(img, size, pad_ratio)\<close> and \<open>center_on_canvas(img, size, size, pad_ratio)\<close>
  return canvases of the same mode and dimensions, with the content of the same size at the
  same place and with the same alpha at every pixel. The two canvases agree at every pixel
  where the pasted content is fully opaque; a pixel outside the content is \<open>(0, 0, 0, 0)\<close>
  in the first and \<open>(255, 255, 255, 0)\<close> in the second.
\<close>
theorem fit_on_square_vs_center_on_canvas:
  assumes "mode img = RGBA" and "0 < width img" and "0 < height img" and "0 \<le> sz"
  shows "\<exists>c1 c2 new_w new_h x y.
           fit_on_square lanczos img sz pad_ratio = Inr c1 \<and>
           center_on_canvas lanczos img sz sz pad_ratio = Inr c2 \<and>
           fit_on_square_geometry (width img) (height img) sz pad_ratio = Inr (new_w, new_h, x, y) \<and>
           center_on_canvas_geometry (width img) (height img) sz sz pad_ratio = Inr (new_w, new_h, x, y) \<and>
           mode c1 = mode c2 \<and> width c1 = sz \<and> width c2 = sz \<and> height c1 = sz \<and> height c2 = sz \<and>
           map (map alpha) (pixels c1) = map (map alpha) (pixels c2) \<and>
           (\<forall>i j. 0 \<le> i \<and> i < sz \<and> 0 \<le> j \<and> j < sz \<longrightarrow>
              (if x \<le> i \<and> i < x + new_w \<and> y \<le> j \<and> j < y + new_h
               then alpha (pixel_at (resize lanczos img (new_w, new_h)) (i - x) (j - y)) = 255 \<longrightarrow>
                    pixel_at c1 i j = pixel_at c2 i j
               else pixel_at c1 i j = (0, 0, 0, 0) \<and> pixel_at c2 i j = (255, 255, 255, 0)))"
proof -
  have w: "width img \<noteq> 0" and h: "height img \<noteq> 0" using assms(2,3) by simp_all
  obtain new_w new_h x y
    where g1: "fit_on_square_geometry (width img) (height img) sz pad_ratio = Inr (new_w, new_h, x, y)"
    using fit_on_square_geometry_eq[OF w h] by blast
  have g2: "center_on_canvas_geometry (width img) (height img) sz sz pad_ratio = Inr (new_w, new_h, x, y)"
    using g1 by (simp only: fit_on_square_is_center_on_canvas_geometry)
  define R where "R = resize lanczos img (new_w, new_h)"
  obtain k1 c1 where k1: "new_image RGBA sz sz (0, 0, 0, 0) = Inr k1"
    and c1: "fit_on_square lanczos img sz pad_ratio = Inr c1"
    and p1: "paste k1 R (x, y) R = Inr c1"
    using fit_on_square_paste[OF assms(1) w h assms(4) g1] unfolding R_def by blast
  obtain k2 c2 where k2: "new_image RGBA sz sz (255, 255, 255, 0) = Inr k2"
    and c2: "center_on_canvas lanczos img sz sz pad_ratio = Inr c2"
    and p2: "paste k2 R (x, y) R = Inr c2"
    using center_on_canvas_paste[OF assms(1) w h assms(4,4) g2] unfolding R_def by blast
  note r1 = paste_on_new_image[OF k1 p1]
  note r2 = paste_on_new_image[OF k2 p2]
  have box: "in_box (x, y) R i j \<longleftrightarrow> x \<le> int i \<and> int i < x + new_w \<and> y \<le> int j \<and> int j < y + new_h" for i j
    unfolding R_def by (rule in_box_resize)
  have al: "alpha (pixels c1 ! j ! i) = alpha (pixels c2 ! j ! i)" if "j < nat sz" "i < nat sz" for i j
    unfolding r1(6)[OF that] r2(6)[OF that] pasted_alpha by (simp add: alpha_def)
  have row: "map alpha (pixels c1 ! j) = map alpha (pixels c2 ! j)" if "j < nat sz" for j
    by (rule nth_equalityI) (simp_all add: r1(5)[OF that] r2(5)[OF that] al[OF that])
  have alpha_eq: "map (map alpha) (pixels c1) = map (map alpha) (pixels c2)"
    by (rule nth_equalityI) (simp_all add: r1(4) r2(4) row)
  have px: "if x \<le> i \<and> i < x + new_w \<and> y \<le> j \<and> j < y + new_h
               then alpha (pixel_at R (i - x) (j - y)) = 255 \<longrightarrow> pixel_at c1 i j = pixel_at c2 i j
               else pixel_at c1 i j = (0, 0, 0, 0) \<and> pixel_at c2 i j = (255, 255, 255, 0)"
    if "0 \<le> i" "i < sz" "0 \<le> j" "j < sz" for i j
  proof -
    have b: "nat j < nat sz" "nat i < nat sz" using that by simp_all
    have ij: "int (nat i) = i" "int (nat j) = j" using that by simp_all
    show ?thesis
      unfolding pixel_at_def[of c1] pixel_at_def[of c2] r1(6)[OF b] r2(6)[OF b] box ij
      by (simp add: blend_pixel_opaque)
  qed
  have m: "mode c1 = mode c2" by (simp add: r1(1) r2(1))
  have every: "\<forall>i j. 0 \<le> i \<and> i < sz \<and> 0 \<le> j \<and> j < sz \<longrightarrow>
              (if x \<le> i \<and> i < x + new_w \<and> y \<le> j \<and> j < y + new_h
               then alpha (pixel_at (resize lanczos img (new_w, new_h)) (i - x) (j - y)) = 255 \<longrightarrow>
                    pixel_at c1 i j = pixel_at c2 i j
               else pixel_at c1 i j = (0, 0, 0, 0) \<and> pixel_at c2 i j = (255, 255, 255, 0))"
    using px unfolding R_def by blast
  show ?thesis
    by (intro exI conjI) (rule c1 c2 g1 g2 m r1(2,3) r2(2,3) alpha_eq every)+
qed

text \<open>
  The amended statement at \<open>dot\<close> on a square of side 4.
\<close>
theorem fit_on_square_vs_center_on_canvas_witness:
  "mode dot = RGBA \<and> 0 < width dot \<and> 0 < height dot \<and> (0::int) \<le> 4 \<and>
   (\<exists>c1 c2. fit_on_square nearest dot 4 (1/4) = Inr c1 \<and>
            center_on_canvas nearest dot 4 4 (1/4) = Inr c2 \<and>
            map (map alpha) (pixels c1) = map (map alpha) (pixels c2))"
  using fit_on_square_vs_center_on_canvas [of dot 4 nearest "1/4"]
  by (simp add: dot_def) blast

lemma convert_RGB_geometry:
  "width (convert_RGB img) = width img" "height (convert_RGB img) = height img"
  by (simp_all add: convert_RGB_def split: mode.split)

lemma remove_near_white_bg_geometry:
  "mode (remove_near_white_bg img threshold tolerance) = RGBA"
  "width (remove_near_white_bg img threshold tolerance) = width img"
  "height (remove_near_white_bg img threshold tolerance) = height img"
  by (simp_all add: remove_near_white_bg_def Let_def convert_RGBA_geometry)

lemma flag_mockup_background:
  assumes "mode im_trans = RGBA" and "width im_trans \<noteq> 0" and "height im_trans \<noteq> 0"
      and "0 \<le> w" and "flag_height rw rh w = Inr h" and "0 \<le> h"
      and "center_on_canvas_geometry (width im_trans) (height im_trans) w h (1/4) = Inr (new_w, new_h, x, y)"
  shows "\<exists>out. flag_mockup lanczos im_trans rw rh w = Inr out \<and>
           mode out = RGB \<and> width out = w \<and> height out = h \<and>
           well_formed out \<and>
           (\<forall>i j. 0 \<le> i \<and> i < w \<and> 0 \<le> j \<and> j < h \<and>
                  \<not> (x \<le> i \<and> i < x + new_w \<and> y \<le> j \<and> j < y + new_h) \<longrightarrow>
                  pixel_at out i j = (255, 255, 255, 255))"
proof -
  define R where "R = resize lanczos im_trans (new_w, new_h)"
  obtain bg where bg: "new_image RGB w h (255, 255, 255, 255) = Inr bg"
    using assms(4,6) by (simp add: new_image_def)
  obtain k placed where k: "new_image RGBA w h (255, 255, 255, 0) = Inr k"
    and placed: "center_on_canvas lanczos im_trans w h (1/4) = Inr placed"
    and p: "paste k R (x, y) R = Inr placed"
    using center_on_canvas_paste[OF assms(1,2,3,4,6,7)] unfolding R_def by blast
  note r = paste_on_new_image[OF k p]
  have "mode placed = RGBA \<and> width placed = width (convert_RGB placed) \<and>
        height placed = height (convert_RGB placed)"
    by (simp add: r(1) convert_RGB_geometry)
  then obtain out where out: "paste bg (convert_RGB placed) (0, 0) placed = Inr out"
    by (simp add: paste_def)
  note o = paste_on_new_image[OF bg out]
  have f: "flag_mockup lanczos im_trans rw rh w = Inr out"
    by (simp add: flag_mockup_def assms(5) bg center_canvas_eq placed out)
  have box: "in_box (x, y) R i j \<longleftrightarrow> x \<le> int i \<and> int i < x + new_w \<and> y \<le> int j \<and> int j < y + new_h" for i j
    unfolding R_def by (rule in_box_resize)
  have px: "pixel_at out i j = (255, 255, 255, 255)"
    if "0 \<le> i" "i < w" "0 \<le> j" "j < h" "\<not> (x \<le> i \<and> i < x + new_w \<and> y \<le> j \<and> j < y + new_h)" for i j
  proof -
    have b: "nat j < nat h" "nat i < nat w" using that by simp_all
    have ij: "int (nat i) = i" "int (nat j) = j" using that by simp_all
    have "pixels placed ! nat j ! nat i = (255, 255, 255, 0)"
      by (simp only: r(6)[OF b] box ij that(5) if_False)
    then have a: "alpha (pixel_at placed i j) = 0"
      by (simp add: pixel_at_def alpha_def)
    show ?thesis
      unfolding pixel_at_def[of out] o(6)[OF b] ij
      by (simp add: a blend_pixel_transparent)
  qed
  have wf: "well_formed out"
    unfolding well_formed_def list_all_length o(2,3,4) using assms(4,6) o(5) by simp
  have every: "\<forall>i j. 0 \<le> i \<and> i < w \<and> 0 \<le> j \<and> j < h \<and>
                  \<not> (x \<le> i \<and> i < x + new_w \<and> y \<le> j \<and> j < y + new_h) \<longrightarrow>
                  pixel_at out i j = (255, 255, 255, 255)"
    using px by blast
  show ?thesis
    by (intro exI conjI) (rule f o(1-3) wf every)+
qed

text \<open>
  C7. The flag mockup of ratio 3:2 and width 900, built from the transparent logo of any
  image of positive dimensions, is 900 pixels wide and exactly 600 high, which is also
  \<open>round(900 * 2 / 3)\<close>; it has no alpha channel, and every pixel outside the box of the
  placed content is white.
\<close>
theorem flag_mockup_3_2_900:
  assumes "0 < width im" and "0 < height im"
  shows "flag_height 3 2 900 = Inr 600 \<and> py_round (900 * 2 / 3) = 600 \<and>
         (\<exists>out new_w new_h x y.
            flag_mockup lanczos (remove_near_white_bg im threshold tolerance) 3 2 900 = Inr out \<and>
            mode out = RGB \<and> width out = 900 \<and> height out = 600 \<and>
            well_formed out \<and>
            center_on_canvas_geometry (width im) (height im) 900 600 (1/4) = Inr (new_w, new_h, x, y) \<and>
            (\<forall>i j. 0 \<le> i \<and> i < 900 \<and> 0 \<le> j \<and> j < 600 \<and>
                   \<not> (x \<le> i \<and> i < x + new_w \<and> y \<le> j \<and> j < y + new_h) \<longrightarrow>
                   pixel_at out i j = (255, 255, 255, 255)))"
proof -
  define im_trans where "im_trans = remove_near_white_bg im threshold tolerance"
  have m: "mode im_trans = RGBA" and wd: "width im_trans = width im" and ht: "height im_trans = height im"
    by (simp_all add: im_trans_def remove_near_white_bg_geometry)
  have w: "width im_trans \<noteq> 0" and h: "height im_trans \<noteq> 0" using assms wd ht by simp_all
  obtain new_w new_h x y
    where g: "center_on_canvas_geometry (width im_trans) (height im_trans) 900 600 (1/4) = Inr (new_w, new_h, x, y)"
    using center_on_canvas_geometry_eq[OF w h] by blast
  have fh: "flag_height 3 2 900 = Inr 600" by (rule flag_height_3_2_900)
  have r: "py_round (900 * 2 / 3) = 600" by code_simp
  obtain out where out: "flag_mockup lanczos im_trans 3 2 900 = Inr out"
    "mode out = RGB" "width out = 900" "height out = 600"
    "well_formed out"
    "\<forall>i j. 0 \<le> i \<and> i < 900 \<and> 0 \<le> j \<and> j < 600 \<and>
                  \<not> (x \<le> i \<and> i < x + new_w \<and> y \<le> j \<and> j < y + new_h) \<longrightarrow>
                  pixel_at out i j = (255, 255, 255, 255)"
  proof -
    have nn: "0 \<le> (900::int)" "0 \<le> (600::int)" by simp_all
    from flag_mockup_background[OF m w h nn(1) fh nn(2) g, of lanczos] that
    show ?thesis by blast
  qed
  show ?thesis
    unfolding im_trans_def[symmetric]
    by (intro exI conjI) (rule fh r out g[unfolded wd ht])+
qed

text \<open>
  The flag mockup of the transparent logo of \<open>logo2\<close>.
\<close>
theorem flag_mockup_3_2_900_witness:
  "0 < width logo2 \<and> 0 < height logo2 \<and>
   (\<exists>out. flag_mockup nearest (remove_near_white_bg logo2 245 15) 3 2 900 = Inr out \<and>
          mode out = RGB \<and> width out = 900 \<and> height out = 600)"
  using flag_mockup_3_2_900 [of logo2 nearest 245 15]
  by (simp add: logo2_def) blast

section \<open>The iOS artifacts\<close>

text \<open>
  C10. The iOS group is 19 artifacts with 19 different file names: one for every pair of a
  base in 20, 29, 40, 60, 76, 83 and a scale in 1, 2, 3 except the pair (83, 1), of
  \<open>base * scale\<close> pixels, then the icon of 167 pixels named for 83.5 points at scale 2 and
  the store icon of 1024 pixels.
\<close>
theorem ios_group_artifacts:
  "length ios_group = 19 \<and>
   distinct (map fst ios_group) \<and>
   map (\<lambda>(f, s, p). (f, s)) ios_group =
     [(''logo_asset_pack/ios/Icon-20pt@1x-20.png'', 20),
      (''logo_asset_pack/ios/Icon-20pt@2x-40.png'', 40),
      (''logo_asset_pack/ios/Icon-20pt@3x-60.png'', 60),
      (''logo_asset_pack/ios/Icon-29pt@1x-29.png'', 29),
      (''logo_asset_pack/ios/Icon-29pt@2x-58.png'', 58),
      (''logo_asset_pack/ios/Icon-29pt@3x-87.png'', 87),
      (''logo_asset_pack/ios/Icon-40pt@1x-40.png'', 40),
      (''logo_asset_pack/ios/Icon-40pt@2x-80.png'', 80),
      (''logo_asset_pack/ios/Icon-40pt@3x-120.png'', 120),
      (''logo_asset_pack/ios/Icon-60pt@1x-60.png'', 60),
      (''logo_asset_pack/ios/Icon-60pt@2x-120.png'', 120),
      (''logo_asset_pack/ios/Icon-60pt@3x-180.png'', 180),
      (''logo_asset_pack/ios/Icon-76pt@1x-76.png'', 76),
      (''logo_asset_pack/ios/Icon-76pt@2x-152.png'', 152),
      (''logo_asset_pack/ios/Icon-76pt@3x-228.png'', 228),
      (''logo_asset_pack/ios/Icon-83pt@2x-166.png'', 166),
      (''logo_asset_pack/ios/Icon-83pt@3x-249.png'', 249),
      (''logo_asset_pack/ios/Icon-83.5pt@2x-167.png'', 167),
      (''logo_asset_pack/ios/AppStore-1024.png'', 1024)] \<and>
   ios_group =
     map (\<lambda>(base, scale). (path_join IOS_DIR (ios_icon_name base scale), base * scale, fl (3/25)))
       (filter (\<lambda>(base, scale). (base, scale) \<noteq> (83, 1)) (List.product ios_sizes scales))
     @ [(path_join IOS_DIR ''Icon-83.5pt@2x-167.png'', 167, fl (3/25)),
        (path_join IOS_DIR ''AppStore-1024.png'', 1024, fl (3/25))] \<and>
   length (List.product ios_sizes scales) = 6 * 3"
proof -
  have names: "map (\<lambda>(f, s, p). (f, s)) ios_group =
     [(''logo_asset_pack/ios/Icon-20pt@1x-20.png'', 20),
      (''logo_asset_pack/ios/Icon-20pt@2x-40.png'', 40),
      (''logo_asset_pack/ios/Icon-20pt@3x-60.png'', 60),
      (''logo_asset_pack/ios/Icon-29pt@1x-29.png'', 29),
      (''logo_asset_pack/ios/Icon-29pt@2x-58.png'', 58),
      (''logo_asset_pack/ios/Icon-29pt@3x-87.png'', 87),
      (''logo_asset_pack/ios/Icon-40pt@1x-40.png'', 40),
      (''logo_asset_pack/ios/Icon-40pt@2x-80.png'', 80),
      (''logo_asset_pack/ios/Icon-40pt@3x-120.png'', 120),
      (''logo_asset_pack/ios/Icon-60pt@1x-60.png'', 60),
      (''logo_asset_pack/ios/Icon-60pt@2x-120.png'', 120),
      (''logo_asset_pack/ios/Icon-60pt@3x-180.png'', 180),
      (''logo_asset_pack/ios/Icon-76pt@1x-76.png'', 76),
      (''logo_asset_pack/ios/Icon-76pt@2x-152.png'', 152),
      (''logo_asset_pack/ios/Icon-76pt@3x-228.png'', 228),
      (''logo_asset_pack/ios/Icon-83pt@2x-166.png'', 166),
      (''logo_asset_pack/ios/Icon-83pt@3x-249.png'', 249),
      (''logo_asset_pack/ios/Icon-83.5pt@2x-167.png'', 167),
      (''logo_asset_pack/ios/AppStore-1024.png'', 1024)]"
    by (simp add: ios_group_def ios_sizes_def scales_def ios_icon_name_def path_join_def
          IOS_DIR_def digits.simps)
  have "map fst ios_group = map fst (map (\<lambda>(f, s, p). (f, s)) ios_group)"
    by (simp add: case_prod_unfold)
  then have d: "distinct (map fst ios_group)"
    unfolding names by simp
  have "length ios_group = length (map (\<lambda>(f, s, p). (f, s)) ios_group)" by simp
  then have l: "length ios_group = 19" unfolding names by simp
  have p: "ios_group =
     map (\<lambda>(base, scale). (path_join IOS_DIR (ios_icon_name base scale), base * scale, fl (3/25)))
       (filter (\<lambda>(base, scale). (base, scale) \<noteq> (83, 1)) (List.product ios_sizes scales))
     @ [(path_join IOS_DIR ''Icon-83.5pt@2x-167.png'', 167, fl (3/25)),
        (path_join IOS_DIR ''AppStore-1024.png'', 1024, fl (3/25))]"
    by (simp add: ios_group_def ios_sizes_def scales_def)
  have n: "length (List.product ios_sizes scales) = 6 * 3"
    by (simp add: ios_sizes_def scales_def)
  show ?thesis using l d names p n by blast
qed

end
